theory Spec2Isabelle
  imports Complex_Main "HOL-Library.Sublist" "HOL-Library.Multiset"
begin

section \<open>JavaScript strings\<close>

text \<open>
  A JavaScript string is a sequence of UTF-16 code units.  A code unit is modelled by
  its number, so that the characters above \<open>0xFF\<close>, which the sanitising regular
  expression leaves in place, are part of the model.
\<close>

type_synonym jschar = nat
type_synonym jsstring = "jschar list"

text \<open>A string literal of the source, written with the characters of its ASCII text.\<close>

definition str :: "string \<Rightarrow> jsstring" where
  "str s = map of_char s"

text \<open>
  The character class \<^verbatim>\<open>[\x00-\x08\x0B\x0C\x0E-\x1F\x7F-\xFF]\<close> that
  \<open>addTitle\<close>, \<open>addSection\<close> and \<open>wrapText\<close> remove with \<^verbatim>\<open>replace(..., "")\<close>.
\<close>

definition stripped :: "jschar \<Rightarrow> bool" where
  "stripped c \<longleftrightarrow> c \<le> 8 \<or> c = 11 \<or> c = 12 \<or> (14 \<le> c \<and> c \<le> 31) \<or> (127 \<le> c \<and> c \<le> 255)"

definition sanitize :: "jsstring \<Rightarrow> jsstring" where
  "sanitize s = filter (\<lambda>c. \<not> stripped c) s"

text \<open>
  \<^verbatim>\<open>s.trim()\<close> removes the white space and line terminators of ECMAScript from both
  ends; the source only tests whether the result is empty, which is the case exactly
  when every code unit of \<open>s\<close> is one of them.
\<close>

definition isWhiteSpace :: "jschar \<Rightarrow> bool" where
  "isWhiteSpace c \<longleftrightarrow>
     c = 9 \<or> c = 10 \<or> c = 11 \<or> c = 12 \<or> c = 13 \<or> c = 32 \<or> c = 160 \<or> c = 5760 \<or>
     (8192 \<le> c \<and> c \<le> 8202) \<or> c = 8232 \<or> c = 8233 \<or> c = 8239 \<or> c = 8287 \<or>
     c = 12288 \<or> c = 65279"

definition trimIsEmpty :: "jsstring \<Rightarrow> bool" where
  "trimIsEmpty s = list_all isWhiteSpace s"

text \<open>Puts a code unit in front of the first piece of a split that is under way.\<close>

fun consFirst :: "jschar \<Rightarrow> jsstring list \<Rightarrow> jsstring list" where
  "consFirst c [] = [[c]]"
| "consFirst c (p # ps) = (c # p) # ps"

text \<open>
  \<^verbatim>\<open>text.split(/\r?\n/)\<close>: the pieces between line breaks, where a line break is a
  line feed (10) with the carriage return (13) right before it, if there is one.
\<close>

fun splitNewlines :: "jsstring \<Rightarrow> jsstring list" where
  "splitNewlines [] = [[]]"
| "splitNewlines [c] = (if c = 10 then [[], []] else [[c]])"
| "splitNewlines (c # d # cs) =
     (if c = 10 then [] # splitNewlines (d # cs)
      else if c = 13 \<and> d = 10 then [] # splitNewlines cs
      else consFirst c (splitNewlines (d # cs)))"

text \<open>\<^verbatim>\<open>paragraph.split(" ")\<close>: the pieces between single spaces (32), empty ones included.\<close>

fun splitSpaces :: "jsstring \<Rightarrow> jsstring list" where
  "splitSpaces [] = [[]]"
| "splitSpaces (c # cs) =
     (if c = 32 then [] # splitSpaces cs else consFirst c (splitSpaces cs))"

text \<open>\<^verbatim>\<open>lines.join(" ")\<close>.\<close>

fun joinSpaces :: "jsstring list \<Rightarrow> jsstring" where
  "joinSpaces [] = []"
| "joinSpaces [w] = w"
| "joinSpaces (w # v # ws) = w @ 32 # joinSpaces (v # ws)"

text \<open>\<^verbatim>\<open>info.join("\n")\<close>.\<close>

fun joinNewlines :: "jsstring list \<Rightarrow> jsstring" where
  "joinNewlines [] = []"
| "joinNewlines [w] = w"
| "joinNewlines (w # v # ws) = w @ 10 # joinNewlines (v # ws)"

section \<open>Constants\<close>

text \<open>
  \<^verbatim>\<open>PDF_CONFIG\<close> of \<^verbatim>\<open>constants.ts\<close>; lengths are in points.  The numbers of the
  source are modelled as real numbers, so coordinates and widths are exact.
\<close>

definition PAGE_WIDTH :: real where "PAGE_WIDTH = 595.28"
definition PAGE_HEIGHT :: real where "PAGE_HEIGHT = 841.89"
definition MARGIN :: real where "MARGIN = 50"
definition TITLE_SIZE :: real where "TITLE_SIZE = 24"
definition HEADING_SIZE :: real where "HEADING_SIZE = 16"
definition TEXT_SIZE :: real where "TEXT_SIZE = 12"
definition LINE_HEIGHT :: real where "LINE_HEIGHT = 18"

section \<open>The PDF library, as far as the generator uses it\<close>

text \<open>
  What a call into the PDF library, the file system or the database can throw: an
  \<open>Error\<close> object with its message, or a value that is not an \<open>Error\<close>.
  \<open>ApplicationError\<close> is a class of the application; no library constructs it, so
  it is not among them.
\<close>

datatype foreign_exception = Error jsstring | NonError

datatype exception = ApplicationError jsstring nat | Foreign foreign_exception

text \<open>
  A font of the library is given by two of its operations.  \<open>widthOfTextAtSize\<close>
  measures a text at a size and raises when the font's encoding has no glyph for one
  of its characters (\<open>None\<close>); \<open>encodeText\<close> is the encoding step of \<open>drawText\<close>
  with this font and gives the exception it raises, if it raises.  Both come from the
  library and are parameters of the model.
\<close>

record PDFFont =
  widthOfTextAtSize :: "jsstring \<Rightarrow> real \<Rightarrow> real option"
  encodeText :: "jsstring \<Rightarrow> foreign_exception option"

datatype FontRef = Bold | Regular

text \<open>One call of \<open>page.drawText\<close>, with the options the generator passes.\<close>

record DrawTextCall =
  call_text :: jsstring
  call_x :: real
  call_y :: real
  call_size :: real
  call_font :: FontRef

text \<open>A page: its size and the texts drawn on it, in the order of the calls.\<close>

record PDFPage =
  pageSize :: "real \<times> real"
  drawn :: "DrawTextCall list"

text \<open>
  A document is the list of its pages.  The context's \<open>page\<close> is a reference to one of
  them, modelled by its index in \<open>doc\<close>.
\<close>

record PDFGenerationContext =
  doc :: "PDFPage list"
  page :: nat
  fonts_bold :: PDFFont
  fonts_regular :: PDFFont
  currentY :: real
  pageWidth :: real
  pageHeight :: real
  margin :: real

section \<open>wrapText\<close>

text \<open>
  The loop over the words of one paragraph, with the variables \<open>lines\<close> and
  \<open>currentLine\<close> it updates.  A word whose test line cannot be measured is skipped.
\<close>

fun wrapWords ::
  "PDFGenerationContext \<Rightarrow> real \<Rightarrow> jsstring list \<Rightarrow> jsstring list \<Rightarrow> jsstring
     \<Rightarrow> jsstring list \<times> jsstring" where
  "wrapWords context maxWidth [] lines currentLine = (lines, currentLine)"
| "wrapWords context maxWidth (word # words) lines currentLine =
     (let cleanWord = sanitize word;
          testLine = (if currentLine \<noteq> [] then currentLine @ 32 # cleanWord else cleanWord)
      in case widthOfTextAtSize (fonts_regular context) testLine TEXT_SIZE of
           None \<Rightarrow> wrapWords context maxWidth words lines currentLine
         | Some textWidth \<Rightarrow>
             if textWidth > maxWidth \<and> currentLine \<noteq> []
             then wrapWords context maxWidth words (lines @ [currentLine]) cleanWord
             else wrapWords context maxWidth words lines testLine)"

text \<open>The body of the loop over the paragraphs: the lines one paragraph contributes.\<close>

definition wrapParagraph :: "PDFGenerationContext \<Rightarrow> real \<Rightarrow> jsstring \<Rightarrow> jsstring list" where
  "wrapParagraph context maxWidth paragraph =
     (if trimIsEmpty paragraph then [[]]
      else case wrapWords context maxWidth (splitSpaces paragraph) [] [] of
             (lines, currentLine) \<Rightarrow>
               if currentLine \<noteq> [] then lines @ [currentLine] else lines)"

definition wrapText :: "jsstring \<Rightarrow> PDFGenerationContext \<Rightarrow> jsstring list" where
  "wrapText txt context =
     (let paragraphs = splitNewlines txt;
          maxWidth = pageWidth context - 2 * margin context
      in concat (map (wrapParagraph context maxWidth) paragraphs))"

section \<open>Sequencing of calls that may throw\<close>

definition andThen :: "'e + 'a \<Rightarrow> ('a \<Rightarrow> 'e + 'b) \<Rightarrow> 'e + 'b" where
  "andThen r f = (case r of Inl e \<Rightarrow> Inl e | Inr v \<Rightarrow> f v)"

text \<open>A call that returns nothing: it either throws or is done.\<close>

definition unlessThrown :: "'e option \<Rightarrow> 'e + unit" where
  "unlessThrown r = (case r of Some e \<Rightarrow> Inl e | None \<Rightarrow> Inr ())"

text \<open>An exception of a library call, as it travels through the application.\<close>

definition foreign :: "foreign_exception + 'a \<Rightarrow> exception + 'a" where
  "foreign r = (case r of Inl e \<Rightarrow> Inl (Foreign e) | Inr v \<Rightarrow> Inr v)"

section \<open>Drawing\<close>

text \<open>\<open>context.page.drawText\<close>, once the text is encoded: the call is recorded on the page.\<close>

definition drawText :: "PDFGenerationContext \<Rightarrow> DrawTextCall \<Rightarrow> PDFGenerationContext" where
  "drawText context call =
     context\<lparr>doc := (doc context)[page context :=
        (doc context ! page context)\<lparr>drawn := drawn (doc context ! page context) @ [call]\<rparr>]\<rparr>"

text \<open>
  The two assignments \<^verbatim>\<open>context.page = context.doc.addPage([pageWidth, pageHeight])\<close>
  and \<^verbatim>\<open>context.currentY = context.pageHeight - context.margin\<close>, which \<open>addSection\<close>
  makes in two places.
\<close>

definition newPage :: "PDFGenerationContext \<Rightarrow> PDFGenerationContext" where
  "newPage context =
     context\<lparr>doc := doc context @ [\<lparr>pageSize = (pageWidth context, pageHeight context), drawn = []\<rparr>],
             page := length (doc context),
             currentY := pageHeight context - margin context\<rparr>"

definition addTitle :: "PDFGenerationContext \<Rightarrow> jsstring \<Rightarrow> foreign_exception + PDFGenerationContext" where
  "addTitle context title =
     (let cleanTitle = sanitize title
      in case encodeText (fonts_bold context) cleanTitle of
           Some e \<Rightarrow> Inl e
         | None \<Rightarrow>
             (let drawnContext = drawText context
                    \<lparr>call_text = cleanTitle, call_x = margin context, call_y = currentY context,
                     call_size = TITLE_SIZE, call_font = Bold\<rparr>
              in Inr (drawnContext\<lparr>currentY := currentY drawnContext - (TITLE_SIZE + 20)\<rparr>)))"

text \<open>The check at the start of \<open>addSection\<close>: "Check if we need a new page".\<close>

definition addSection_pageCheck :: "PDFGenerationContext \<Rightarrow> PDFGenerationContext" where
  "addSection_pageCheck context =
     (if currentY context < margin context + 100 then newPage context else context)"

text \<open>
  The body of the loop over the lines in \<open>addSection\<close>.  A line that is empty after
  trimming is not drawn, and neither is one that \<open>drawText\<close> cannot encode: the
  exception is caught and the line skipped.  The cursor moves down in every case.
\<close>

definition addSection_line :: "PDFGenerationContext \<Rightarrow> jsstring \<Rightarrow> PDFGenerationContext" where
  "addSection_line context line =
     (let paged = (if currentY context < margin context + 20 then newPage context else context);
          drawnContext =
            (if \<not> trimIsEmpty line \<and> encodeText (fonts_regular paged) line = None
             then drawText paged
                    \<lparr>call_text = line, call_x = margin paged, call_y = currentY paged,
                     call_size = TEXT_SIZE, call_font = Regular\<rparr>
             else paged)
      in drawnContext\<lparr>currentY := currentY drawnContext - LINE_HEIGHT\<rparr>)"

text \<open>
  \<open>addSection\<close> can only throw where it draws the heading.  The context is mutable, so
  what the page check did to it stays done: the exception comes with the context as
  it is at the throw.
\<close>

definition addSection ::
  "PDFGenerationContext \<Rightarrow> jsstring \<Rightarrow> jsstring
     \<Rightarrow> (foreign_exception \<times> PDFGenerationContext) + PDFGenerationContext" where
  "addSection context heading content =
     (let paged = addSection_pageCheck context;
          cleanHeading = sanitize heading
      in case encodeText (fonts_bold paged) cleanHeading of
           Some e \<Rightarrow> Inl (e, paged)
         | None \<Rightarrow>
             (let headed = drawText paged
                    \<lparr>call_text = cleanHeading, call_x = margin paged, call_y = currentY paged,
                     call_size = HEADING_SIZE, call_font = Bold\<rparr>;
                  below = headed\<lparr>currentY := currentY headed - (HEADING_SIZE + 10)\<rparr>;
                  cleanContent = sanitize content;
                  lines = wrapText cleanContent below;
                  written = foldl addSection_line below lines
              in Inr (written\<lparr>currentY := currentY written - 20\<rparr>)))"

section \<open>The submission and the generator's environment\<close>

text \<open>The \<open>UserSubmission\<close> record of the database; a date is its time value.\<close>

record UserSubmission =
  id_submission :: jsstring
  firstName :: jsstring
  lastName :: jsstring
  email :: jsstring
  phone :: "jsstring option"
  jobDescription :: jsstring
  uploadedFilePath :: "jsstring option"
  uploadedFileName :: "jsstring option"
  generatedPdfPath :: "jsstring option"
  status :: jsstring
  createdAt :: int
  updatedAt :: int

datatype StandardFonts = Helvetica | HelveticaBold

text \<open>
  Everything the generator asks of the PDF library, the file system and the runtime.
  Each call is a parameter that gives the call's result or the exception it throws.
  The check of the written file runs after \<open>writeFile\<close>, when the file system may
  answer differently from before, so \<open>access\<close> and \<open>readFile\<close> have their own
  parameters there.
\<close>

record Env =
  create :: "foreign_exception option"
  defaultPageSize :: "real \<times> real"
  embedFont :: "StandardFonts \<Rightarrow> foreign_exception + PDFFont"
  toLocaleDateString_enUS :: "int \<Rightarrow> jsstring"
  toLocaleDateString :: "int \<Rightarrow> jsstring"
  fs_access :: "jsstring \<Rightarrow> foreign_exception option"
  fs_readFile :: "jsstring \<Rightarrow> foreign_exception + nat list"
  load :: "nat list \<Rightarrow> foreign_exception + PDFPage list"
  copyPages :: "PDFPage list \<Rightarrow> nat list \<Rightarrow> foreign_exception + PDFPage list"
  save :: "PDFPage list \<Rightarrow> foreign_exception + nat list"
  cwd :: jsstring
  path_join :: "jsstring list \<Rightarrow> jsstring"
  path_basename :: "jsstring \<Rightarrow> jsstring"
  fs_mkdir :: "jsstring \<Rightarrow> foreign_exception option"
  fs_writeFile :: "jsstring \<Rightarrow> nat list \<Rightarrow> foreign_exception option"
  fs_access_written :: "jsstring \<Rightarrow> foreign_exception option"
  fs_readFile_written :: "jsstring \<Rightarrow> foreign_exception + nat list"

text \<open>A number inside a template string: its decimal digits.\<close>

fun showNat :: "nat \<Rightarrow> jsstring" where
  "showNat n = (if n < 10 then [48 + n] else showNat (n div 10) @ [48 + n mod 10])"

declare showNat.simps [simp del]

text \<open>\<^verbatim>\<open>value || fallback\<close> on a string that may be null: null and "" give the fallback.\<close>

definition orElse :: "jsstring option \<Rightarrow> jsstring \<Rightarrow> jsstring" where
  "orElse v fallback = (case v of None \<Rightarrow> fallback | Some s \<Rightarrow> if s = [] then fallback else s)"

definition generateApplicantInfo :: "Env \<Rightarrow> UserSubmission \<Rightarrow> jsstring" where
  "generateApplicantInfo env submission =
     joinNewlines
       [str ''Name: '' @ firstName submission @ str '' '' @ lastName submission,
        str ''Email: '' @ email submission,
        str ''Phone: '' @ orElse (phone submission) (str ''Not provided''),
        str ''Application Date: '' @ toLocaleDateString_enUS env (createdAt submission),
        str ''Status: '' @ status submission]"

definition generateDocumentInfo :: "UserSubmission \<Rightarrow> jsstring" where
  "generateDocumentInfo submission =
     (case uploadedFileName submission of
        None \<Rightarrow> str ''No document uploaded''
      | Some name \<Rightarrow>
          if name = [] then str ''No document uploaded''
          else str ''Uploaded File: '' @ name @ 10 # str ''File processed and attached to this PDF.'')"

section \<open>embedUploadedPDF\<close>

text \<open>The inner \<^verbatim>\<open>try\<close> block that copies the pages ("Try to copy pages with error handling").\<close>

definition embedUploadedPDF_copy ::
  "Env \<Rightarrow> PDFGenerationContext \<Rightarrow> PDFPage list \<Rightarrow> nat
     \<Rightarrow> (foreign_exception \<times> PDFGenerationContext) + PDFGenerationContext" where
  "embedUploadedPDF_copy env context uploadedPdf pageCount =
     (let pageIndices = [0..<length uploadedPdf]
      in case copyPages env uploadedPdf pageIndices of
           Inl e \<Rightarrow> Inl (e, context)
         | Inr copiedPages \<Rightarrow>
             (case addSection context (str ''Attached Resume/Document'')
                     (str ''The following '' @ showNat pageCount @
                      str '' page(s) contain the uploaded document:'') of
                Inl thrown \<Rightarrow> Inl thrown
              | Inr sectioned \<Rightarrow> Inr (sectioned\<lparr>doc := doc sectioned @ copiedPages\<rparr>)))"

text \<open>The outer \<^verbatim>\<open>try\<close> block.\<close>

definition embedUploadedPDF_try ::
  "Env \<Rightarrow> PDFGenerationContext \<Rightarrow> jsstring
     \<Rightarrow> (foreign_exception \<times> PDFGenerationContext) + PDFGenerationContext" where
  "embedUploadedPDF_try env context filePath =
     (case fs_access env filePath of
        Some e \<Rightarrow> Inl (e, context)
      | None \<Rightarrow>
          (case fs_readFile env filePath of
             Inl e \<Rightarrow> Inl (e, context)
           | Inr uploadedPdfBytes \<Rightarrow>
               if length uploadedPdfBytes = 0
               then addSection context (str ''Attached Document'')
                      (str ''Document file was empty and could not be processed.'')
               else
                 (case load env uploadedPdfBytes of
                    Inl loadError \<Rightarrow>
                      addSection context (str ''Attached Document'')
                        (str ''Document '' @ 34 # path_basename env filePath @ 34 #
                         str '' was uploaded but could not be processed. The file may be corrupted or encrypted.'')
                  | Inr uploadedPdf \<Rightarrow>
                      (let pageCount = length uploadedPdf
                       in if pageCount = 0
                          then addSection context (str ''Attached Document'')
                                 (str ''Document file contains no pages and could not be processed.'')
                          else
                            (case embedUploadedPDF_copy env context uploadedPdf pageCount of
                               Inr embedded \<Rightarrow> Inr embedded
                             | Inl (copyError, context') \<Rightarrow>
                                 addSection context' (str ''Attached Document'')
                                   (str ''Document '' @ 34 # path_basename env filePath @ 34 #
                                    str '' was uploaded but pages could not be copied. The file may have restrictions or be corrupted.''))))))"

definition embedUploadedPDF ::
  "Env \<Rightarrow> PDFGenerationContext \<Rightarrow> jsstring
     \<Rightarrow> (foreign_exception \<times> PDFGenerationContext) + PDFGenerationContext" where
  "embedUploadedPDF env context filePath =
     (case embedUploadedPDF_try env context filePath of
        Inr embedded \<Rightarrow> Inr embedded
      | Inl (error, context') \<Rightarrow>
          addSection context' (str ''Attached Document'')
            (str ''Document was uploaded but could not be embedded in this PDF. Error: '' @
             (case error of Error message \<Rightarrow> message | NonError \<Rightarrow> str ''Unknown error'')))"

section \<open>generatePDF\<close>

text \<open>Leaves the context behind when an exception leaves the function that held it.\<close>

definition escaped ::
  "(foreign_exception \<times> PDFGenerationContext) + PDFGenerationContext
     \<Rightarrow> exception + PDFGenerationContext" where
  "escaped r = (case r of Inl (e, context) \<Rightarrow> Inl (Foreign e) | Inr context \<Rightarrow> Inr context)"

text \<open>
  The first part of the \<^verbatim>\<open>try\<close> block of \<open>generatePDF\<close>, up to the embedding of the
  uploaded file: it builds the document that is saved afterwards.
\<close>

definition generatePDF_document :: "Env \<Rightarrow> UserSubmission \<Rightarrow> exception + PDFPage list" where
  "generatePDF_document env submission =
     andThen (foreign (unlessThrown (create env))) (\<lambda>_.
     andThen (foreign (embedFont env HelveticaBold)) (\<lambda>helveticaBold.
     andThen (foreign (embedFont env Helvetica)) (\<lambda>helvetica.
       (let context =
              \<lparr>doc = [\<lparr>pageSize = (PAGE_WIDTH, PAGE_HEIGHT), drawn = []\<rparr>], page = 0,
               fonts_bold = helveticaBold, fonts_regular = helvetica,
               currentY = PAGE_HEIGHT - MARGIN,
               pageWidth = PAGE_WIDTH, pageHeight = PAGE_HEIGHT, margin = MARGIN\<rparr>
        in
     andThen (foreign (addTitle context (str ''Application Summary''))) (\<lambda>context.
     andThen (escaped (addSection context (str ''Applicant Information'')
                         (generateApplicantInfo env submission))) (\<lambda>context.
     andThen (escaped (addSection context (str ''Current Job Description'')
                         (jobDescription submission))) (\<lambda>context.
     andThen (escaped (addSection context (str ''Uploaded Document'')
                         (generateDocumentInfo submission))) (\<lambda>context.
     andThen (case uploadedFilePath submission of
                None \<Rightarrow> Inr context
              | Some filePath \<Rightarrow>
                  if filePath = [] then Inr context
                  else escaped (embedUploadedPDF env context filePath)) (\<lambda>context.
     Inr (doc context))))))))))"

text \<open>
  The rest of the \<^verbatim>\<open>try\<close> block: the document is saved, written to
  \<^verbatim>\<open>uploads/generated/application-<id>.pdf\<close> and read back.  Whatever the check of
  the written file throws is replaced by the one \<open>ApplicationError\<close> of its handler.
\<close>

definition generatePDF_store :: "Env \<Rightarrow> UserSubmission \<Rightarrow> PDFPage list \<Rightarrow> exception + jsstring" where
  "generatePDF_store env submission pdfDoc =
     andThen (foreign (save env pdfDoc)) (\<lambda>pdfBytes.
       if length pdfBytes = 0 then Inl (ApplicationError (str ''Generated PDF is empty'') 500)
       else
         (let generatedDir = path_join env [cwd env, str ''uploads'', str ''generated'']
          in
     andThen (foreign (unlessThrown (fs_mkdir env generatedDir))) (\<lambda>_.
         (let pdfFileName = str ''application-'' @ id_submission submission @ str ''.pdf'';
              pdfPath = path_join env [generatedDir, pdfFileName]
          in
     andThen (foreign (unlessThrown (fs_writeFile env pdfPath pdfBytes))) (\<lambda>_.
         (let verification =
                andThen (foreign (unlessThrown (fs_access_written env pdfPath))) (\<lambda>_.
                andThen (foreign (fs_readFile_written env pdfPath)) (\<lambda>stats.
                  if length stats = 0
                  then Inl (ApplicationError (str ''Saved PDF file is empty'') 500)
                  else Inr ()))
          in case verification of
               Inl verificationError \<Rightarrow>
                 Inl (ApplicationError (str ''PDF file verification failed'') 500)
             | Inr _ \<Rightarrow> Inr pdfPath))))))"

definition PDF_GENERATION_FAILED :: jsstring where
  "PDF_GENERATION_FAILED = str ''Failed to generate PDF''"

text \<open>The whole function: the \<^verbatim>\<open>try\<close> block and its \<^verbatim>\<open>catch\<close>.\<close>

definition generatePDF :: "Env \<Rightarrow> UserSubmission \<Rightarrow> exception + jsstring" where
  "generatePDF env submission =
     (case andThen (generatePDF_document env submission) (generatePDF_store env submission) of
        Inr pdfPath \<Rightarrow> Inr pdfPath
      | Inl (ApplicationError message statusCode) \<Rightarrow> Inl (ApplicationError message statusCode)
      | Inl (Foreign (Error message)) \<Rightarrow>
          Inl (ApplicationError (str ''PDF generation failed: '' @ message) 500)
      | Inl (Foreign NonError) \<Rightarrow> Inl (ApplicationError PDF_GENERATION_FAILED 500))"

section \<open>generateSimplePDF\<close>

text \<open>\<open>page.drawText\<close> on the only page of the simple document; it throws what the encoding throws.\<close>

definition drawOnPage :: "PDFFont \<Rightarrow> DrawTextCall \<Rightarrow> PDFPage \<Rightarrow> exception + PDFPage" where
  "drawOnPage usedFont call pg =
     (case encodeText usedFont (call_text call) of
        Some e \<Rightarrow> Inl (Foreign e)
      | None \<Rightarrow> Inr (pg\<lparr>drawn := drawn pg @ [call]\<rparr>))"

text \<open>The loop over the lines of applicant information, with \<open>yPosition\<close>.\<close>

fun drawInfo :: "PDFFont \<Rightarrow> jsstring list \<Rightarrow> real \<Rightarrow> PDFPage \<Rightarrow> exception + (PDFPage \<times> real)" where
  "drawInfo helvetica [] yPosition pg = Inr (pg, yPosition)"
| "drawInfo helvetica (line # info) yPosition pg =
     andThen (drawOnPage helvetica
                \<lparr>call_text = line, call_x = 50, call_y = yPosition, call_size = 12, call_font = Regular\<rparr> pg)
       (\<lambda>pg. drawInfo helvetica info (yPosition - 20) pg)"

definition generateSimplePDF_document :: "Env \<Rightarrow> UserSubmission \<Rightarrow> exception + PDFPage list" where
  "generateSimplePDF_document env submission =
     andThen (foreign (unlessThrown (create env))) (\<lambda>_.
       (let pg = \<lparr>pageSize = defaultPageSize env, drawn = []\<rparr>;
            height = snd (pageSize pg)
        in
     andThen (foreign (embedFont env HelveticaBold)) (\<lambda>helveticaBold.
     andThen (foreign (embedFont env Helvetica)) (\<lambda>helvetica.
     andThen (drawOnPage helveticaBold
                \<lparr>call_text = str ''Application Summary'', call_x = 50, call_y = height - 50,
                 call_size = 24, call_font = Bold\<rparr> pg) (\<lambda>pg.
       (let info =
              [str ''Name: '' @ firstName submission @ str '' '' @ lastName submission,
               str ''Email: '' @ email submission,
               str ''Phone: '' @ orElse (phone submission) (str ''Not provided''),
               str ''Application Date: '' @ toLocaleDateString env (createdAt submission)]
        in
     andThen (drawInfo helvetica info (height - 100) pg) (\<lambda>(pg, yPosition).
       (let yPosition = yPosition - 20
        in
     andThen (drawOnPage helveticaBold
                \<lparr>call_text = str ''Job Description:'', call_x = 50, call_y = yPosition,
                 call_size = 16, call_font = Bold\<rparr> pg) (\<lambda>pg.
       (let yPosition = yPosition - 30
        in
     andThen (drawOnPage helvetica
                \<lparr>call_text = jobDescription submission, call_x = 50, call_y = yPosition,
                 call_size = 12, call_font = Regular\<rparr> pg) (\<lambda>pg.
     Inr [pg])))))))))))"

definition generateSimplePDF_store :: "Env \<Rightarrow> UserSubmission \<Rightarrow> PDFPage list \<Rightarrow> exception + jsstring" where
  "generateSimplePDF_store env submission pdfDoc =
     andThen (foreign (save env pdfDoc)) (\<lambda>pdfBytes.
       if length pdfBytes = 0 then Inl (ApplicationError (str ''Generated PDF is empty'') 500)
       else
         (let generatedDir = path_join env [cwd env, str ''uploads'', str ''generated'']
          in
     andThen (foreign (unlessThrown (fs_mkdir env generatedDir))) (\<lambda>_.
         (let pdfFileName = str ''application-'' @ id_submission submission @ str ''.pdf'';
              pdfPath = path_join env [generatedDir, pdfFileName]
          in
     andThen (foreign (unlessThrown (fs_writeFile env pdfPath pdfBytes))) (\<lambda>_.
     Inr pdfPath)))))"

definition generateSimplePDF :: "Env \<Rightarrow> UserSubmission \<Rightarrow> exception + jsstring" where
  "generateSimplePDF env submission =
     (case andThen (generateSimplePDF_document env submission)
             (generateSimplePDF_store env submission) of
        Inr pdfPath \<Rightarrow> Inr pdfPath
      | Inl (ApplicationError message statusCode) \<Rightarrow> Inl (ApplicationError message statusCode)
      | Inl (Foreign (Error message)) \<Rightarrow>
          Inl (ApplicationError (str ''Simple PDF generation failed: '' @ message) 500)
      | Inl (Foreign NonError) \<Rightarrow>
          Inl (ApplicationError (str ''Simple PDF generation failed'') 500))"

section \<open>The API routes\<close>

text \<open>The string enum \<open>SubmissionStatus\<close> and the string each member stands for.\<close>

datatype SubmissionStatus = PENDING | PROCESSING | COMPLETED | FAILED

fun statusValue :: "SubmissionStatus \<Rightarrow> jsstring" where
  "statusValue PENDING = str ''pending''"
| "statusValue PROCESSING = str ''processing''"
| "statusValue COMPLETED = str ''completed''"
| "statusValue FAILED = str ''failed''"

text \<open>The uploaded \<open>File\<close> and the form of the request.\<close>

record File =
  file_name :: jsstring
  file_type :: jsstring
  file_bytes :: "nat list"

record FormData =
  form_firstName :: "jsstring option"
  form_lastName :: "jsstring option"
  form_email :: "jsstring option"
  form_phone :: "jsstring option"
  form_jobDescription :: "jsstring option"
  form_file :: "File option"

text \<open>What \<open>applicationFormSchema.parse\<close> returns.\<close>

record ApplicationFormData =
  valid_firstName :: jsstring
  valid_lastName :: jsstring
  valid_email :: jsstring
  valid_phone :: "jsstring option"
  valid_jobDescription :: jsstring

text \<open>The \<open>data\<close> arguments of \<open>userSubmission.create\<close> and \<open>userSubmission.update\<close>.\<close>

record CreateData =
  create_form :: ApplicationFormData
  create_uploadedFilePath :: jsstring
  create_uploadedFileName :: jsstring
  create_status :: SubmissionStatus

record UpdateData =
  update_generatedPdfPath :: "jsstring option"
  update_status :: SubmissionStatus

text \<open>A write that the database has carried out.\<close>

datatype DbWrite = DbCreate CreateData | DbUpdate jsstring UpdateData

fun writtenStatus :: "DbWrite \<Rightarrow> SubmissionStatus" where
  "writtenStatus (DbCreate d) = create_status d"
| "writtenStatus (DbUpdate i d) = update_status d"

record SubmitResponse =
  success :: bool
  submissionId :: "jsstring option"
  pdfUrl :: "jsstring option"
  error :: "jsstring option"

datatype Body = Bytes "nat list" | SubmitJson SubmitResponse | ErrorJson jsstring

record Response =
  status_code :: nat
  headers :: "(jsstring \<times> jsstring) list"
  body :: Body

text \<open>\<open>NextResponse.json(payload, { status })\<close>; the status is 200 when none is given.\<close>

definition json :: "Body \<Rightarrow> nat \<Rightarrow> Response" where
  "json payload statusCode =
     \<lparr>status_code = statusCode,
      headers = [(str ''content-type'', str ''application/json'')],
      body = payload\<rparr>"

text \<open>
  What the routes ask of their surroundings, besides the generator's environment:
  the validation schema, the helpers of \<^verbatim>\<open>file-utils\<close>, which are not part of the
  sources at hand, and the database.
\<close>

record RouteEnv =
  generator :: Env
  schema_parse :: "FormData \<Rightarrow> foreign_exception + ApplicationFormData"
  validateFile :: "File \<Rightarrow> bool \<times> jsstring option"
  generateSafeFileName :: "jsstring \<Rightarrow> jsstring"
  arrayBuffer :: "File \<Rightarrow> foreign_exception + nat list"
  handleApiError :: "exception \<Rightarrow> jsstring \<times> nat"
  db_create :: "CreateData \<Rightarrow> foreign_exception + UserSubmission"
  db_update :: "jsstring \<Rightarrow> UpdateData \<Rightarrow> foreign_exception option"
  db_findUnique :: "jsstring \<Rightarrow> foreign_exception + UserSubmission option"
  toUTCString :: "int \<Rightarrow> jsstring"

definition INVALID_FILE_TYPE :: jsstring where
  "INVALID_FILE_TYPE = str ''Only PDF files are allowed''"

text \<open>
  \<^verbatim>\<open>e instanceof Error ? e.message : "Unknown error"\<close>; an \<open>ApplicationError\<close> is an
  \<open>Error\<close> with a status code.
\<close>

fun messageOf :: "exception \<Rightarrow> jsstring" where
  "messageOf (ApplicationError message statusCode) = message"
| "messageOf (Foreign (Error message)) = message"
| "messageOf (Foreign NonError) = str ''Unknown error''"

subsection \<open>POST /api/submit\<close>

text \<open>
  The \<^verbatim>\<open>try\<close> block up to the saving of the uploaded file.  It gives the validated
  form, the path of the saved file and the name of the upload.
\<close>

definition POST_upload ::
  "RouteEnv \<Rightarrow> foreign_exception + FormData
     \<Rightarrow> exception + (ApplicationFormData \<times> jsstring \<times> jsstring)" where
  "POST_upload env request_formData =
     andThen (foreign request_formData) (\<lambda>formData.
     andThen (foreign (schema_parse env formData)) (\<lambda>validatedData.
       case form_file formData of
         None \<Rightarrow> Inl (ApplicationError (str ''No file uploaded'') 400)
       | Some file \<Rightarrow>
           (let fileValidation = validateFile env file
            in if \<not> fst fileValidation
               then Inl (ApplicationError (orElse (snd fileValidation) INVALID_FILE_TYPE) 400)
               else
                 (let uploadsDir = path_join (generator env) [cwd (generator env), str ''uploads'']
                  in
     andThen (foreign (unlessThrown (fs_mkdir (generator env) uploadsDir))) (\<lambda>_.
     andThen (foreign (arrayBuffer env file)) (\<lambda>buffer.
                 (let fileName = generateSafeFileName env (file_name file);
                      filePath = path_join (generator env) [uploadsDir, fileName]
                  in
     andThen (foreign (unlessThrown (fs_writeFile (generator env) filePath buffer))) (\<lambda>_.
     Inr (validatedData, filePath, file_name file)))))))))"

text \<open>
  The rest of the \<^verbatim>\<open>try\<close> block: the record is created, the PDF generated and the
  record updated.  The result comes with the writes the database has carried out, in
  their order; a write that throws is not among them.
\<close>

definition POST_persist ::
  "RouteEnv \<Rightarrow> ApplicationFormData \<times> jsstring \<times> jsstring
     \<Rightarrow> (exception + Response) \<times> DbWrite list" where
  "POST_persist env upload =
     (case upload of (validatedData, filePath, fileName) \<Rightarrow>
        (let created = \<lparr>create_form = validatedData, create_uploadedFilePath = filePath,
                          create_uploadedFileName = fileName, create_status = PROCESSING\<rparr>
         in case db_create env created of
              Inl e \<Rightarrow> (Inl (Foreign e), [])
            | Inr submission \<Rightarrow>
                (case generatePDF (generator env) submission of
                   Inl pdfError \<Rightarrow>
                     (let failed = \<lparr>update_generatedPdfPath = None, update_status = FAILED\<rparr>
                      in case db_update env (id_submission submission) failed of
                           Some e \<Rightarrow> (Inl (Foreign e), [DbCreate created])
                         | None \<Rightarrow>
                             (Inl (ApplicationError
                                     (str ''PDF generation failed: '' @ messageOf pdfError) 500),
                              [DbCreate created, DbUpdate (id_submission submission) failed]))
                 | Inr pdfPath \<Rightarrow>
                     (let completed = \<lparr>update_generatedPdfPath = Some pdfPath,
                                          update_status = COMPLETED\<rparr>
                      in case db_update env (id_submission submission) completed of
                           Some e \<Rightarrow> (Inl (Foreign e), [DbCreate created])
                         | None \<Rightarrow>
                             (Inr (json (SubmitJson
                                      \<lparr>success = True,
                                       submissionId = Some (id_submission submission),
                                       pdfUrl = Some (str ''/api/pdf/'' @ id_submission submission),
                                       error = None\<rparr>) 200),
                              [DbCreate created, DbUpdate (id_submission submission) completed])))))"

text \<open>The handler with its \<^verbatim>\<open>catch\<close>: the response and the writes of the request.\<close>

definition POST :: "RouteEnv \<Rightarrow> foreign_exception + FormData \<Rightarrow> Response \<times> DbWrite list" where
  "POST env request_formData =
     (let (outcome, writes) =
            (case POST_upload env request_formData of
               Inl e \<Rightarrow> (Inl e, [])
             | Inr upload \<Rightarrow> POST_persist env upload)
      in case outcome of
           Inr response \<Rightarrow> (response, writes)
         | Inl thrown \<Rightarrow>
             (let (message, statusCode) = handleApiError env thrown
              in (json (SubmitJson \<lparr>success = False, submissionId = None, pdfUrl = None,
                                     error = Some message\<rparr>) statusCode,
                  writes)))"

subsection \<open>GET /api/pdf/[id]\<close>

text \<open>\<^verbatim>\<open>name.replace(/[^a-zA-Z0-9]/g, "_")\<close>.\<close>

definition alphanumeric :: "jschar \<Rightarrow> bool" where
  "alphanumeric c \<longleftrightarrow> (97 \<le> c \<and> c \<le> 122) \<or> (65 \<le> c \<and> c \<le> 90) \<or> (48 \<le> c \<and> c \<le> 57)"

definition underscored :: "jsstring \<Rightarrow> jsstring" where
  "underscored name = map (\<lambda>c. if alphanumeric c then c else 95) name"

definition GET_try :: "RouteEnv \<Rightarrow> jsstring \<Rightarrow> exception + Response" where
  "GET_try env idParam =
     (if idParam = [] \<or> length idParam < 10
      then Inl (ApplicationError (str ''Invalid submission ID'') 400)
      else
     andThen (foreign (db_findUnique env idParam)) (\<lambda>found.
       case found of
         None \<Rightarrow> Inl (ApplicationError (str ''Submission not found'') 404)
       | Some submission \<Rightarrow>
           if status submission = statusValue PROCESSING
           then Inl (ApplicationError
                  (str ''PDF is still being generated. Please try again in a moment.'') 202)
           else if status submission = statusValue FAILED
           then Inl (ApplicationError (str ''PDF generation failed. Please contact support.'') 500)
           else
             (case generatedPdfPath submission of
                None \<Rightarrow> Inl (ApplicationError (str ''PDF not available'') 404)
              | Some pdfPath \<Rightarrow>
                  if pdfPath = [] then Inl (ApplicationError (str ''PDF not available'') 404)
                  else
                    (case fs_access (generator env) pdfPath of
                       Some fileError \<Rightarrow>
                         Inl (ApplicationError (str ''PDF file not found on server'') 404)
                     | None \<Rightarrow>
     andThen (foreign (fs_readFile (generator env) pdfPath)) (\<lambda>pdfBuffer.
                         if length pdfBuffer = 0
                         then Inl (ApplicationError (str ''PDF file is empty'') 500)
                         else
                           (let safeFileName =
                                  str ''application-'' @ underscored (firstName submission) @
                                  str ''-'' @ underscored (lastName submission) @ str ''.pdf''
                            in Inr \<lparr>status_code = 200,
                                     headers =
                                       [(str ''Content-Type'', str ''application/pdf''),
                                        (str ''Content-Disposition'',
                                         str ''attachment; filename='' @ 34 # safeFileName @ [34]),
                                        (str ''Content-Length'', showNat (length pdfBuffer)),
                                        (str ''Cache-Control'', str ''public, max-age=3600''),
                                        (str ''Last-Modified'',
                                         toUTCString env (createdAt submission))],
                                     body = Bytes pdfBuffer\<rparr>))))))"

definition GET :: "RouteEnv \<Rightarrow> jsstring \<Rightarrow> Response" where
  "GET env idParam =
     (case GET_try env idParam of
        Inr response \<Rightarrow> response
      | Inl thrown \<Rightarrow>
          (let (message, statusCode) = handleApiError env thrown
           in json (ErrorJson message) statusCode))"

section \<open>Notions used to state the properties\<close>

text \<open>A line fits when its measured width at the text size is at most the limit.\<close>

definition fitsWidth :: "PDFGenerationContext \<Rightarrow> real \<Rightarrow> jsstring \<Rightarrow> bool" where
  "fitsWidth context maxWidth line =
     (case widthOfTextAtSize (fonts_regular context) line TEXT_SIZE of
        None \<Rightarrow> False
      | Some textWidth \<Rightarrow> textWidth \<le> maxWidth)"

text \<open>
  Whether the loop over the words of a paragraph measures every test line it builds.
  It is the loop of \<open>wrapWords\<close> with the same test lines; where \<open>widthOfTextAtSize\<close>
  raises, and the source skips the word, the answer is no.
\<close>

fun allMeasured :: "PDFGenerationContext \<Rightarrow> real \<Rightarrow> jsstring list \<Rightarrow> jsstring \<Rightarrow> bool" where
  "allMeasured context maxWidth [] currentLine = True"
| "allMeasured context maxWidth (word # words) currentLine =
     (let cleanWord = sanitize word;
          testLine = (if currentLine \<noteq> [] then currentLine @ 32 # cleanWord else cleanWord)
      in case widthOfTextAtSize (fonts_regular context) testLine TEXT_SIZE of
           None \<Rightarrow> False
         | Some textWidth \<Rightarrow>
             if textWidth > maxWidth \<and> currentLine \<noteq> []
             then allMeasured context maxWidth words cleanWord
             else allMeasured context maxWidth words testLine)"

text \<open>
  The words that the loop does not skip, with the stripped characters removed and in
  their order: the words whose test line is measured.
\<close>

fun keptWords :: "PDFGenerationContext \<Rightarrow> real \<Rightarrow> jsstring list \<Rightarrow> jsstring \<Rightarrow> jsstring list" where
  "keptWords context maxWidth [] currentLine = []"
| "keptWords context maxWidth (word # words) currentLine =
     (let cleanWord = sanitize word;
          testLine = (if currentLine \<noteq> [] then currentLine @ 32 # cleanWord else cleanWord)
      in case widthOfTextAtSize (fonts_regular context) testLine TEXT_SIZE of
           None \<Rightarrow> keptWords context maxWidth words currentLine
         | Some textWidth \<Rightarrow>
             if textWidth > maxWidth \<and> currentLine \<noteq> []
             then cleanWord # keptWords context maxWidth words cleanWord
             else cleanWord # keptWords context maxWidth words testLine)"

text \<open>The space-separated words of a string that are not empty.\<close>

definition nonEmptyWords :: "jsstring \<Rightarrow> jsstring list" where
  "nonEmptyWords s = filter (\<lambda>w. w \<noteq> []) (splitSpaces s)"

text \<open>
  The calls of \<open>drawText\<close> that the pages of a document hold, with their multiplicity,
  and the calls that were issued between two states of the context.
\<close>

definition allCalls :: "PDFPage list \<Rightarrow> DrawTextCall multiset" where
  "allCalls pages = mset (concat (map drawn pages))"

definition issuedCalls :: "PDFGenerationContext \<Rightarrow> PDFGenerationContext \<Rightarrow> DrawTextCall multiset" where
  "issuedCalls before after = allCalls (doc after) - allCalls (doc before)"










text \<open>The directory and the path that \<open>generatePDF\<close> writes to, as it computes them.\<close>

definition generatedDir :: "Env \<Rightarrow> jsstring" where
  "generatedDir env = path_join env [cwd env, str ''uploads'', str ''generated'']"






text \<open>The status machine of the specification: pending, processing, then completed or failed.\<close>

fun transition :: "SubmissionStatus \<Rightarrow> SubmissionStatus \<Rightarrow> bool" where
  "transition PENDING PROCESSING = True"
| "transition PROCESSING COMPLETED = True"
| "transition PROCESSING FAILED = True"
| "transition s s' = False"

definition terminal :: "SubmissionStatus \<Rightarrow> bool" where
  "terminal s \<longleftrightarrow> s = COMPLETED \<or> s = FAILED"

text \<open>
  When there is a PDF to serve for an id: the id has at least 10 characters, the
  submission exists, its status is neither \<open>processing\<close> nor \<open>failed\<close>, a path of the
  generated PDF is recorded, and the file there can be read and is not empty.
\<close>

definition downloadable :: "RouteEnv \<Rightarrow> jsstring \<Rightarrow> nat list \<Rightarrow> bool" where
  "downloadable env idParam pdfBytes \<longleftrightarrow>
     10 \<le> length idParam \<and>
     (\<exists>submission pdfPath.
        db_findUnique env idParam = Inr (Some submission) \<and>
        status submission \<noteq> statusValue PROCESSING \<and>
        status submission \<noteq> statusValue FAILED \<and>
        generatedPdfPath submission = Some pdfPath \<and> pdfPath \<noteq> [] \<and>
        fs_access (generator env) pdfPath = None \<and>
        fs_readFile (generator env) pdfPath = Inr pdfBytes \<and> pdfBytes \<noteq> [])"

section \<open>Example instances\<close>

text \<open>
  An example font for running the definitions: every code unit is half the font size
  wide, and a text with a code unit above \<open>0xFF\<close> cannot be encoded.
\<close>

definition exFont :: PDFFont where
  "exFont =
     \<lparr>widthOfTextAtSize =
        (\<lambda>s fontSize. if list_all (\<lambda>c. c < 256) s then Some (fontSize / 2 * real (length s)) else None),
      encodeText =
        (\<lambda>s. if list_all (\<lambda>c. c < 256) s then None else Some (Error (str ''cannot encode'')))\<rparr>"

text \<open>The same metric for a font that accepts every text.\<close>

definition monoFont :: PDFFont where
  "monoFont =
     \<lparr>widthOfTextAtSize = (\<lambda>s fontSize. Some (fontSize / 2 * real (length s))),
      encodeText = (\<lambda>s. None)\<rparr>"

text \<open>The context as \<open>generatePDF\<close> sets it up, with the example fonts.\<close>

definition exContext :: PDFGenerationContext where
  "exContext =
     \<lparr>doc = [\<lparr>pageSize = (PAGE_WIDTH, PAGE_HEIGHT), drawn = []\<rparr>], page = 0,
      fonts_bold = exFont, fonts_regular = exFont,
      currentY = PAGE_HEIGHT - MARGIN,
      pageWidth = PAGE_WIDTH, pageHeight = PAGE_HEIGHT, margin = MARGIN\<rparr>"

text \<open>A context whose cursor is near the bottom of the page.\<close>

definition lowContext :: PDFGenerationContext where
  "lowContext = exContext\<lparr>currentY := 60\<rparr>"

text \<open>An environment in which every call succeeds, and a submission.\<close>

fun joinSlashes :: "jsstring list \<Rightarrow> jsstring" where
  "joinSlashes [] = []"
| "joinSlashes [w] = w"
| "joinSlashes (w # v # ws) = w @ 47 # joinSlashes (v # ws)"

definition exUploadedPage :: PDFPage where
  "exUploadedPage = \<lparr>pageSize = (612, 792), drawn = []\<rparr>"

definition exEnv :: Env where
  "exEnv =
     \<lparr>create = None,
      defaultPageSize = (PAGE_WIDTH, PAGE_HEIGHT),
      embedFont = (\<lambda>f. Inr monoFont),
      toLocaleDateString_enUS = (\<lambda>d. str ''January 1, 2025 at 09:00 AM''),
      toLocaleDateString = (\<lambda>d. str ''1/1/2025''),
      fs_access = (\<lambda>p. None),
      fs_readFile = (\<lambda>p. Inr [37, 80, 68, 70]),
      load = (\<lambda>bytes. Inr [exUploadedPage]),
      copyPages = (\<lambda>pdf indices. Inr (map (\<lambda>i. pdf ! i) indices)),
      save = (\<lambda>pdfDoc. Inr [37, 80, 68, 70]),
      cwd = str ''/app'',
      path_join = joinSlashes,
      path_basename = (\<lambda>p. rev (takeWhile (\<lambda>c. c \<noteq> 47) (rev p))),
      fs_mkdir = (\<lambda>p. None),
      fs_writeFile = (\<lambda>p bytes. None),
      fs_access_written = (\<lambda>p. None),
      fs_readFile_written = (\<lambda>p. Inr [37, 80, 68, 70])\<rparr>"

definition exSubmission :: UserSubmission where
  "exSubmission =
     \<lparr>id_submission = str ''cm5x0a1b2c3d4e5f'',
      firstName = str ''Ada'', lastName = str ''Byron'', email = str ''ada@example.org'',
      phone = None, jobDescription = str ''Writes programs for engines.'',
      uploadedFilePath = Some (str ''/app/uploads/cv.pdf''),
      uploadedFileName = Some (str ''cv.pdf''),
      generatedPdfPath = None, status = str ''processing'',
      createdAt = 0, updatedAt = 0\<rparr>"

text \<open>An environment in which the library cannot create a document.\<close>

definition failingEnv :: Env where
  "failingEnv = exEnv\<lparr>create := Some (Error (str ''out of memory''))\<rparr>"






text \<open>
  An example of \<open>handleApiError\<close>, of a route environment around a database that
  holds a finished submission under every id, and of a request.
\<close>

fun exHandleApiError :: "exception \<Rightarrow> jsstring \<times> nat" where
  "exHandleApiError (ApplicationError message statusCode) = (message, statusCode)"
| "exHandleApiError (Foreign e) = (str ''Internal server error'', 500)"

definition exRouteEnv :: RouteEnv where
  "exRouteEnv =
     \<lparr>generator = exEnv,
      schema_parse = (\<lambda>formData. Inr
         \<lparr>valid_firstName = str ''Ada'', valid_lastName = str ''Byron'',
          valid_email = str ''ada@example.org'', valid_phone = None,
          valid_jobDescription = str ''Writes programs for engines.''\<rparr>),
      validateFile = (\<lambda>file. (True, None)),
      generateSafeFileName = (\<lambda>name. name),
      arrayBuffer = (\<lambda>file. Inr (file_bytes file)),
      handleApiError = exHandleApiError,
      db_create = (\<lambda>d. Inr exSubmission),
      db_update = (\<lambda>i d. None),
      db_findUnique = (\<lambda>i. Inr (Some (exSubmission
         \<lparr>id_submission := i, status := str ''completed'',
          generatedPdfPath := Some (str ''/app/uploads/generated/application.pdf'')\<rparr>))),
      toUTCString = (\<lambda>d. str ''Thu, 01 Jan 1970 00:00:00 GMT'')\<rparr>"

definition exRequest :: "foreign_exception + FormData" where
  "exRequest = Inr
     \<lparr>form_firstName = Some (str ''Ada''), form_lastName = Some (str ''Byron''),
      form_email = Some (str ''ada@example.org''), form_phone = None,
      form_jobDescription = Some (str ''Writes programs for engines.''),
      form_file = Some \<lparr>file_name = str ''cv.pdf'', file_type = str ''application/pdf'',
                         file_bytes = [37, 80, 68, 70]\<rparr>\<rparr>"


definition failingRouteEnv :: RouteEnv where
  "failingRouteEnv = exRouteEnv\<lparr>generator := failingEnv\<rparr>"

section \<open>Properties of wrapText\<close>

lemmas ex_defs = exContext_def exFont_def monoFont_def
  PAGE_WIDTH_def PAGE_HEIGHT_def MARGIN_def TEXT_SIZE_def

lemmas wrap_defs = wrapText_def wrapParagraph_def trimIsEmpty_def isWhiteSpace_def
  sanitize_def stripped_def fitsWidth_def str_def

lemma splitSpaces_not_Nil: "splitSpaces s \<noteq> []"
  by (induction s) (auto split: list.splits, metis consFirst.elims list.distinct(1))

lemma consFirst_eq: "ps \<noteq> [] \<Longrightarrow> consFirst c ps = (c # hd ps) # tl ps"
  by (cases ps) auto

lemma splitSpaces_append: "splitSpaces (a @ 32 # b) = splitSpaces a @ splitSpaces b"
proof (induction a)
  case Nil
  show ?case by simp
next
  case (Cons c a)
  show ?case
  proof (cases "c = 32")
    case True
    with Cons show ?thesis by simp
  next
    case False
    have "splitSpaces a \<noteq> []" by (rule splitSpaces_not_Nil)
    then obtain p ps where "splitSpaces a = p # ps" by (cases "splitSpaces a") auto
    with Cons False show ?thesis by simp
  qed
qed

lemma splitSpaces_no_space: "32 \<notin> set w \<Longrightarrow> splitSpaces w = [w]"
  by (induction w) auto

lemma word_no_space: "w \<in> set (splitSpaces s) \<Longrightarrow> 32 \<notin> set w"
proof (induction s arbitrary: w)
  case Nil
  then show ?case by simp
next
  case (Cons c s)
  obtain p ps where ps: "splitSpaces s = p # ps"
    using splitSpaces_not_Nil [of s] by (cases "splitSpaces s") auto
  show ?case
  proof (cases "c = 32")
    case True
    with Cons show ?thesis by auto
  next
    case False
    with Cons.prems ps have "w = c # p \<or> w \<in> set ps" by simp
    moreover have "32 \<notin> set p" using Cons.IH [of p] ps by simp
    moreover have "w \<in> set ps \<Longrightarrow> 32 \<notin> set w" using Cons.IH [of w] ps by simp
    ultimately show ?thesis using False by auto
  qed
qed

lemma sanitize_no_space: "32 \<notin> set w \<Longrightarrow> 32 \<notin> set (sanitize w)"
  by (simp add: sanitize_def)

lemma sanitize_append: "sanitize (a @ b) = sanitize a @ sanitize b"
  by (simp add: sanitize_def)

lemma not_stripped_space: "\<not> stripped 32"
  by (simp add: stripped_def)

lemma splitSpaces_sanitize: "splitSpaces (sanitize s) = map sanitize (splitSpaces s)"
proof (induction s)
  case Nil
  show ?case by (simp add: sanitize_def)
next
  case (Cons c s)
  obtain p ps where ps: "splitSpaces s = p # ps"
    using splitSpaces_not_Nil [of s] by (cases "splitSpaces s") auto
  show ?case
  proof (cases "c = 32")
    case True
    with Cons show ?thesis by (simp add: sanitize_def not_stripped_space)
  next
    case False
    with Cons ps show ?thesis by (auto simp: sanitize_def)
  qed
qed

lemma joinSpaces_snoc: "joinSpaces (ws @ [w]) = (if ws = [] then w else joinSpaces ws @ 32 # w)"
  by (induction ws rule: joinSpaces.induct) auto

lemma joinSpaces_Cons: "ws \<noteq> [] \<Longrightarrow> joinSpaces (w # ws) = w @ 32 # joinSpaces ws"
  by (cases ws) auto

lemma joinSpaces_splitSpaces: "joinSpaces (splitSpaces s) = s"
proof (induction s)
  case Nil
  show ?case by simp
next
  case (Cons c s)
  obtain p ps where ps: "splitSpaces s = p # ps"
    using splitSpaces_not_Nil [of s] by (cases "splitSpaces s") auto
  show ?case
  proof (cases "c = 32")
    case True
    with Cons ps show ?thesis by simp
  next
    case False
    with Cons ps show ?thesis by (cases ps) auto
  qed
qed

lemma splitSpaces_joinSpaces: "ls \<noteq> [] \<Longrightarrow> splitSpaces (joinSpaces ls) = concat (map splitSpaces ls)"
proof (induction ls rule: joinSpaces.induct)
  case 1
  then show ?case by simp
next
  case (2 w)
  show ?case by simp
next
  case (3 w v ws)
  then show ?case by (simp add: splitSpaces_append)
qed

lemma wrapWords_fits:
  assumes "wrapWords context maxWidth ws lines cur = (lines', cur')"
    and "\<forall>l\<in>set lines. l = [] \<or> fitsWidth context maxWidth l \<or> l \<in> sanitize ` W"
    and "cur = [] \<or> fitsWidth context maxWidth cur \<or> cur \<in> sanitize ` W"
    and "set ws \<subseteq> W"
  shows "(\<forall>l\<in>set lines'. l = [] \<or> fitsWidth context maxWidth l \<or> l \<in> sanitize ` W) \<and>
         (cur' = [] \<or> fitsWidth context maxWidth cur' \<or> cur' \<in> sanitize ` W)"
  using assms
proof (induction ws arbitrary: lines cur)
  case Nil
  then show ?case by simp
next
  case (Cons w ws)
  let ?t = "if cur \<noteq> [] then cur @ 32 # sanitize w else sanitize w"
  have w: "sanitize w \<in> sanitize ` W" and ws: "set ws \<subseteq> W" using Cons.prems(4) by auto
  show ?case
  proof (cases "widthOfTextAtSize (fonts_regular context) ?t TEXT_SIZE")
    case None
    with Cons.prems(1) have "wrapWords context maxWidth ws lines cur = (lines', cur')"
      by (simp add: Let_def)
    from Cons.IH [OF this Cons.prems(2) Cons.prems(3) ws] show ?thesis .
  next
    case (Some tw)
    show ?thesis
    proof (cases "tw > maxWidth \<and> cur \<noteq> []")
      case True
      with Some Cons.prems(1)
      have run: "wrapWords context maxWidth ws (lines @ [cur]) (sanitize w) = (lines', cur')"
        by (simp add: Let_def)
      have "\<forall>l\<in>set (lines @ [cur]). l = [] \<or> fitsWidth context maxWidth l \<or> l \<in> sanitize ` W"
        using Cons.prems(2,3) by auto
      from Cons.IH [OF run this _ ws] w show ?thesis by blast
    next
      case False
      with Some Cons.prems(1)
      have run: "wrapWords context maxWidth ws lines ?t = (lines', cur')"
        by (simp add: Let_def)
      have "?t = [] \<or> fitsWidth context maxWidth ?t \<or> ?t \<in> sanitize ` W"
      proof (cases "cur = []")
        case True
        with w show ?thesis by simp
      next
        case cur: False
        with False have "tw \<le> maxWidth" by simp
        with Some have "fitsWidth context maxWidth ?t" by (simp add: fitsWidth_def)
        then show ?thesis by blast
      qed
      from Cons.IH [OF run Cons.prems(2) this ws] show ?thesis .
    qed
  qed
qed

lemma keptWords_subseq: "subseq (keptWords context maxWidth ws cur) (map sanitize ws)"
proof (induction ws arbitrary: cur)
  case Nil
  show ?case by simp
next
  case (Cons w ws)
  let ?t = "if cur \<noteq> [] then cur @ 32 # sanitize w else sanitize w"
  show ?case
  proof (cases "widthOfTextAtSize (fonts_regular context) ?t TEXT_SIZE")
    case None
    then have "keptWords context maxWidth (w # ws) cur = keptWords context maxWidth ws cur"
      by (simp add: Let_def)
    then show ?thesis using Cons [of cur] by (simp only: list.simps(9) list_emb_Cons)
  next
    case (Some tw)
    let ?n = "if tw > maxWidth \<and> cur \<noteq> [] then sanitize w else ?t"
    from Some have k: "keptWords context maxWidth (w # ws) cur =
        sanitize w # keptWords context maxWidth ws ?n"
      by (simp add: Let_def)
    have "subseq (sanitize w # keptWords context maxWidth ws ?n) (sanitize w # map sanitize ws)"
      using Cons [of ?n] by (rule subseq_Cons2)
    then show ?thesis unfolding k by simp
  qed
qed

lemma allMeasured_keptWords:
  "allMeasured context maxWidth ws cur \<Longrightarrow> keptWords context maxWidth ws cur = map sanitize ws"
proof (induction ws arbitrary: cur)
  case Nil
  show ?case by simp
next
  case (Cons w ws)
  let ?t = "if cur \<noteq> [] then cur @ 32 # sanitize w else sanitize w"
  from Cons.prems obtain tw where Some: "widthOfTextAtSize (fonts_regular context) ?t TEXT_SIZE = Some tw"
    by (cases "widthOfTextAtSize (fonts_regular context) ?t TEXT_SIZE") (simp_all add: Let_def)
  let ?n = "if tw > maxWidth \<and> cur \<noteq> [] then sanitize w else ?t"
  from Some Cons.prems have "allMeasured context maxWidth ws ?n"
    by (simp add: Let_def split: if_splits)
  then have "keptWords context maxWidth ws ?n = map sanitize ws" by (rule Cons.IH)
  moreover from Some have "keptWords context maxWidth (w # ws) cur =
        sanitize w # keptWords context maxWidth ws ?n"
    by (simp add: Let_def)
  ultimately show ?case by simp
qed

lemma wrapWords_runs:
  assumes "wrapWords context maxWidth ws lines cur = (lines', cur')"
    and "cur = joinSpaces cw" and "suffix cw pre"
  shows "\<exists>new. lines' = lines @ new \<and>
           (\<forall>l\<in>set new. \<exists>vs. l = joinSpaces vs \<and> sublist vs (pre @ keptWords context maxWidth ws cur)) \<and>
           (\<exists>vs. cur' = joinSpaces vs \<and> suffix vs (pre @ keptWords context maxWidth ws cur))"
  using assms
proof (induction ws arbitrary: lines cur cw pre)
  case Nil
  then show ?case by auto
next
  case (Cons w ws)
  let ?c = "sanitize w"
  let ?t = "if cur \<noteq> [] then cur @ 32 # ?c else ?c"
  let ?cw = "if cur \<noteq> [] then cw @ [?c] else [?c]"
  have t: "?t = joinSpaces ?cw"
    using Cons.prems(2) by (auto simp: joinSpaces_snoc)
  have suf: "suffix ?cw (pre @ [?c])"
    using Cons.prems(3) by (auto simp: suffix_def)
  show ?case
  proof (cases "widthOfTextAtSize (fonts_regular context) ?t TEXT_SIZE")
    case None
    with Cons.prems(1) have run: "wrapWords context maxWidth ws lines cur = (lines', cur')"
      by (simp add: Let_def)
    from None have k: "keptWords context maxWidth (w # ws) cur = keptWords context maxWidth ws cur"
      by (simp add: Let_def)
    from Cons.IH [OF run Cons.prems(2) Cons.prems(3)] show ?thesis unfolding k .
  next
    case (Some tw)
    show ?thesis
    proof (cases "tw > maxWidth \<and> cur \<noteq> []")
      case True
      with Some Cons.prems(1)
      have run: "wrapWords context maxWidth ws (lines @ [cur]) ?c = (lines', cur')"
        by (simp add: Let_def)
      from Some True have k: "pre @ keptWords context maxWidth (w # ws) cur =
          (pre @ [?c]) @ keptWords context maxWidth ws ?c"
        by (simp add: Let_def)
      have "?c = joinSpaces [?c]" by simp
      moreover have "suffix [?c] (pre @ [?c])" by (simp add: suffix_def)
      ultimately obtain new where
        new: "lines' = (lines @ [cur]) @ new"
          "\<forall>l\<in>set new. \<exists>vs. l = joinSpaces vs \<and> sublist vs ((pre @ [?c]) @ keptWords context maxWidth ws ?c)"
          "\<exists>vs. cur' = joinSpaces vs \<and> suffix vs ((pre @ [?c]) @ keptWords context maxWidth ws ?c)"
        using Cons.IH [OF run] by blast
      have "sublist cw (pre @ keptWords context maxWidth (w # ws) cur)"
        using Cons.prems(3) by (metis sublist_append_rightI suffix_imp_sublist sublist_order.order_trans)
      then have b: "\<exists>vs. cur = joinSpaces vs \<and> sublist vs (pre @ keptWords context maxWidth (w # ws) cur)"
        using Cons.prems(2) by blast
      have "lines' = lines @ (cur # new)" using new(1) by simp
      moreover have "\<forall>l\<in>set (cur # new). \<exists>vs. l = joinSpaces vs \<and>
          sublist vs (pre @ keptWords context maxWidth (w # ws) cur)"
        using new(2) b unfolding k by auto
      ultimately show ?thesis using new(3) unfolding k by blast
    next
      case False
      with Some Cons.prems(1)
      have run: "wrapWords context maxWidth ws lines ?t = (lines', cur')"
        by (simp add: Let_def)
      from Some False have k: "pre @ keptWords context maxWidth (w # ws) cur =
          (pre @ [?c]) @ keptWords context maxWidth ws ?t"
        by (simp add: Let_def)
      from Cons.IH [OF run t suf] show ?thesis unfolding k .
    qed
  qed
qed

lemma nonEmptyWords_Nil: "nonEmptyWords [] = []"
  by (simp add: nonEmptyWords_def)

lemma nonEmptyWords_append: "nonEmptyWords (a @ 32 # b) = nonEmptyWords a @ nonEmptyWords b"
  by (simp add: nonEmptyWords_def splitSpaces_append)

lemma nonEmptyWords_word: "32 \<notin> set w \<Longrightarrow> nonEmptyWords w = (if w = [] then [] else [w])"
  by (simp add: nonEmptyWords_def splitSpaces_no_space)

lemma nonEmptyWords_joinSpaces: "nonEmptyWords (joinSpaces ls) = concat (map nonEmptyWords ls)"
proof (cases "ls = []")
  case True
  then show ?thesis by (simp add: nonEmptyWords_Nil)
next
  case False
  then show ?thesis
    unfolding nonEmptyWords_def
    by (simp add: splitSpaces_joinSpaces filter_concat comp_def)
qed

lemma wrapWords_kept_words:
  assumes "wrapWords context maxWidth ws lines cur = (lines', cur')"
    and "\<forall>w\<in>set ws. 32 \<notin> set w"
  shows "concat (map nonEmptyWords lines') @ nonEmptyWords cur' =
         concat (map nonEmptyWords lines) @ nonEmptyWords cur @
         filter (\<lambda>w. w \<noteq> []) (keptWords context maxWidth ws cur)"
  using assms
proof (induction ws arbitrary: lines cur)
  case Nil
  then show ?case by auto
next
  case (Cons w ws)
  let ?c = "sanitize w"
  let ?t = "if cur \<noteq> [] then cur @ 32 # ?c else ?c"
  have c: "nonEmptyWords ?c = (if ?c = [] then [] else [?c])"
    using Cons.prems(2) by (simp add: nonEmptyWords_word sanitize_no_space)
  have t: "nonEmptyWords ?t = nonEmptyWords cur @ nonEmptyWords ?c"
    by (simp add: nonEmptyWords_append nonEmptyWords_Nil)
  have ws: "\<forall>w\<in>set ws. 32 \<notin> set w" using Cons.prems(2) by simp
  show ?case
  proof (cases "widthOfTextAtSize (fonts_regular context) ?t TEXT_SIZE")
    case None
    with Cons.prems(1) have run: "wrapWords context maxWidth ws lines cur = (lines', cur')"
      by (simp add: Let_def)
    from None have k: "keptWords context maxWidth (w # ws) cur = keptWords context maxWidth ws cur"
      by (simp add: Let_def)
    from Cons.IH [OF run ws] show ?thesis unfolding k .
  next
    case (Some tw)
    show ?thesis
    proof (cases "tw > maxWidth \<and> cur \<noteq> []")
      case True
      with Some Cons.prems(1)
      have run: "wrapWords context maxWidth ws (lines @ [cur]) ?c = (lines', cur')"
        by (simp add: Let_def)
      from Some True have k: "keptWords context maxWidth (w # ws) cur =
          ?c # keptWords context maxWidth ws ?c"
        by (simp add: Let_def)
      from Cons.IH [OF run ws] c show ?thesis unfolding k by simp
    next
      case False
      with Some Cons.prems(1)
      have run: "wrapWords context maxWidth ws lines ?t = (lines', cur')"
        by (simp add: Let_def)
      from Some False have k: "keptWords context maxWidth (w # ws) cur =
          ?c # keptWords context maxWidth ws ?t"
        by (simp add: Let_def)
      from Cons.IH [OF run ws] c t show ?thesis unfolding k by simp
    qed
  qed
qed

lemma wrapWords_all_words:
  assumes "allMeasured context maxWidth ws cur"
    and "wrapWords context maxWidth ws lines cur = (lines', cur')"
    and "\<forall>w\<in>set ws. 32 \<notin> set w \<and> sanitize w \<noteq> []"
  shows "concat (map splitSpaces lines') @ (if cur' = [] then [] else splitSpaces cur') =
         concat (map splitSpaces lines) @ (if cur = [] then [] else splitSpaces cur) @
         map sanitize ws"
  using assms
proof (induction ws arbitrary: lines cur)
  case Nil
  then show ?case by auto
next
  case (Cons w ws)
  let ?c = "sanitize w"
  let ?t = "if cur \<noteq> [] then cur @ 32 # ?c else ?c"
  have c: "splitSpaces ?c = [?c]" "?c \<noteq> []"
    using Cons.prems(3) by (simp_all add: splitSpaces_no_space sanitize_no_space)
  have t: "?t \<noteq> []" "splitSpaces ?t = (if cur = [] then [] else splitSpaces cur) @ [?c]"
    using c by (simp_all add: splitSpaces_append)
  have ws: "\<forall>w\<in>set ws. 32 \<notin> set w \<and> sanitize w \<noteq> []" using Cons.prems(3) by simp
  from Cons.prems(1) obtain tw where Some: "widthOfTextAtSize (fonts_regular context) ?t TEXT_SIZE = Some tw"
    by (cases "widthOfTextAtSize (fonts_regular context) ?t TEXT_SIZE") (simp_all add: Let_def)
  show ?case
  proof (cases "tw > maxWidth \<and> cur \<noteq> []")
    case True
    with Some Cons.prems(2)
    have run: "wrapWords context maxWidth ws (lines @ [cur]) ?c = (lines', cur')"
      by (simp add: Let_def)
    from Some True Cons.prems(1) have m: "allMeasured context maxWidth ws ?c"
      by (simp add: Let_def)
    from Cons.IH [OF m run ws] c True show ?thesis by simp
  next
    case False
    with Some Cons.prems(2)
    have run: "wrapWords context maxWidth ws lines ?t = (lines', cur')"
      by (simp add: Let_def)
    from Some False Cons.prems(1) have m: "allMeasured context maxWidth ws ?t"
      by (simp add: Let_def split: if_splits)
    from Cons.IH [OF m run ws] t show ?thesis by (simp del: splitSpaces.simps)
  qed
qed

lemma splitNewlines_no_newline: "10 \<notin> set s \<Longrightarrow> splitNewlines s = [s]"
  by (induction s rule: splitNewlines.induct) auto

lemma wrapText_member:
  "line \<in> set (wrapText txt context) \<longleftrightarrow>
     (\<exists>paragraph\<in>set (splitNewlines txt).
        line \<in> set (wrapParagraph context (pageWidth context - 2 * margin context) paragraph))"
  by (auto simp: wrapText_def Let_def)

text \<open>
  C1, as the code has it.  Every line that \<open>wrapText\<close> returns is the empty line of a
  paragraph that is all white space, or its measured width at \<open>TEXT_SIZE\<close> is at most
  \<open>maxWidth = pageWidth - 2 * margin\<close>, or it is one single word of the text (with the
  stripped characters removed): a word is never split, so a word that is too wide
  stands on a line of its own.
\<close>

theorem wrapText_lines_fit_or_single_word:
  "\<forall>line\<in>set (wrapText txt context).
     line = [] \<or>
     fitsWidth context (pageWidth context - 2 * margin context) line \<or>
     (\<exists>paragraph\<in>set (splitNewlines txt). \<exists>word\<in>set (splitSpaces paragraph). line = sanitize word)"
proof
  fix line
  assume "line \<in> set (wrapText txt context)"
  then obtain par where p: "par \<in> set (splitNewlines txt)"
    and l: "line \<in> set (wrapParagraph context (pageWidth context - 2 * margin context) par)"
    by (auto simp: wrapText_member)
  let ?mw = "pageWidth context - 2 * margin context"
  obtain lines' cur' where run: "wrapWords context ?mw (splitSpaces par) [] [] = (lines', cur')"
    by (cases "wrapWords context ?mw (splitSpaces par) [] []") auto
  have ok: "(\<forall>l\<in>set lines'. l = [] \<or> fitsWidth context ?mw l \<or> l \<in> sanitize ` set (splitSpaces par)) \<and>
        (cur' = [] \<or> fitsWidth context ?mw cur' \<or> cur' \<in> sanitize ` set (splitSpaces par))"
    by (rule wrapWords_fits [OF run]) auto
  have "line = [] \<or> fitsWidth context ?mw line \<or> line \<in> sanitize ` set (splitSpaces par)"
    using l run ok by (auto simp: wrapParagraph_def split: if_splits)
  with p show "line = [] \<or> fitsWidth context ?mw line \<or>
     (\<exists>par\<in>set (splitNewlines txt). \<exists>word\<in>set (splitSpaces par). line = sanitize word)"
    by blast
qed

text \<open>
  C2, as the code has it.  Every line that \<open>wrapText\<close> returns is made of whole words
  of one paragraph, with the stripped characters removed, joined by single spaces: no
  word is broken across two lines.  The words of a line are a contiguous run of the
  words of the paragraph that were not skipped, so they are a subsequence of the
  paragraph's words; they are a contiguous run of the paragraph's words whenever every
  test line of the paragraph is measured, that is, no word is skipped.
\<close>

theorem wrapText_lines_whole_words:
  "\<forall>line\<in>set (wrapText txt context).
     \<exists>paragraph\<in>set (splitNewlines txt). \<exists>ws.
       line = joinSpaces ws \<and>
       sublist ws (keptWords context (pageWidth context - 2 * margin context) (splitSpaces paragraph) []) \<and>
       subseq ws (map sanitize (splitSpaces paragraph)) \<and>
       (allMeasured context (pageWidth context - 2 * margin context) (splitSpaces paragraph) [] \<longrightarrow>
          sublist ws (map sanitize (splitSpaces paragraph)))"
proof
  fix line
  assume "line \<in> set (wrapText txt context)"
  then obtain par where p: "par \<in> set (splitNewlines txt)"
    and l: "line \<in> set (wrapParagraph context (pageWidth context - 2 * margin context) par)"
    by (auto simp: wrapText_member)
  let ?mw = "pageWidth context - 2 * margin context"
  let ?W = "map sanitize (splitSpaces par)"
  let ?K = "keptWords context ?mw (splitSpaces par) []"
  obtain lines' cur' where run: "wrapWords context ?mw (splitSpaces par) [] [] = (lines', cur')"
    by (cases "wrapWords context ?mw (splitSpaces par) [] []") auto
  have mem: "line = [] \<or> line \<in> set lines' \<or> line = cur'"
    using l run by (auto simp: wrapParagraph_def split: if_splits)
  have "[] = joinSpaces []" "suffix [] ([] :: jsstring list)" by simp_all
  from wrapWords_runs [OF run this]
  have runs: "\<forall>l\<in>set lines'. \<exists>vs. l = joinSpaces vs \<and> sublist vs ?K"
    "\<exists>vs. cur' = joinSpaces vs \<and> sublist vs ?K"
    by (auto intro: suffix_imp_sublist)
  have "\<exists>vs. line = joinSpaces vs \<and> sublist vs ?K"
  proof (cases "line = []")
    case True
    then have "line = joinSpaces [] \<and> sublist [] ?K" by simp
    then show ?thesis by blast
  next
    case False
    with mem runs show ?thesis by blast
  qed
  then obtain vs where vs: "line = joinSpaces vs" "sublist vs ?K" by blast
  have "subseq vs ?K" using vs(2) by (rule sublist_imp_subseq)
  then have sub: "subseq vs ?W"
    using keptWords_subseq [of "context" ?mw "splitSpaces par" "[]"] by (rule subseq_order.order_trans)
  have "allMeasured context ?mw (splitSpaces par) [] \<longrightarrow> sublist vs ?W"
    using vs(2) by (auto dest: allMeasured_keptWords)
  with p vs sub show "\<exists>paragraph\<in>set (splitNewlines txt). \<exists>ws.
       line = joinSpaces ws \<and>
       sublist ws (keptWords context (pageWidth context - 2 * margin context) (splitSpaces paragraph) []) \<and>
       subseq ws (map sanitize (splitSpaces paragraph)) \<and>
       (allMeasured context (pageWidth context - 2 * margin context) (splitSpaces paragraph) [] \<longrightarrow>
          sublist ws (map sanitize (splitSpaces paragraph)))"
    by blast
qed

text \<open>
  C3, as the code has it.  \<open>wrapText\<close> puts the lines of the paragraphs one after the
  other.  A paragraph that is all white space gives one empty line.  For any other
  paragraph, the lines joined with single spaces have, as their non-empty words, the
  words of the paragraph that were not skipped, stripped and in order.  When every
  test line of the paragraph is measured, these are the non-empty words of the
  paragraph with the stripped characters removed, and the joined lines are exactly
  that string when none of its space-separated words is empty (no space at either
  end, no two spaces in a row).
\<close>

theorem wrapParagraph_reproduces_words:
  "wrapText txt context =
     concat (map (wrapParagraph context (pageWidth context - 2 * margin context)) (splitNewlines txt)) \<and>
   (\<forall>paragraph\<in>set (splitNewlines txt).
      (trimIsEmpty paragraph \<longrightarrow> wrapParagraph context maxWidth paragraph = [[]]) \<and>
      (\<not> trimIsEmpty paragraph \<longrightarrow>
         nonEmptyWords (joinSpaces (wrapParagraph context maxWidth paragraph)) =
           filter (\<lambda>w. w \<noteq> []) (keptWords context maxWidth (splitSpaces paragraph) []) \<and>
         (allMeasured context maxWidth (splitSpaces paragraph) [] \<longrightarrow>
            nonEmptyWords (joinSpaces (wrapParagraph context maxWidth paragraph)) =
              nonEmptyWords (sanitize paragraph) \<and>
            ([] \<notin> set (splitSpaces (sanitize paragraph)) \<longrightarrow>
               joinSpaces (wrapParagraph context maxWidth paragraph) = sanitize paragraph))))"
proof (intro conjI ballI impI)
  show "wrapText txt context =
      concat (map (wrapParagraph context (pageWidth context - 2 * margin context)) (splitNewlines txt))"
    by (simp add: wrapText_def Let_def)
next
  fix par
  assume "trimIsEmpty par"
  then show "wrapParagraph context maxWidth par = [[]]"
    by (simp add: wrapParagraph_def)
next
  fix par
  assume nb: "\<not> trimIsEmpty par"
  obtain lines' cur' where run: "wrapWords context maxWidth (splitSpaces par) [] [] = (lines', cur')"
    by (cases "wrapWords context maxWidth (splitSpaces par) [] []") auto
  have nosp: "\<forall>w\<in>set (splitSpaces par). 32 \<notin> set w"
    by (simp add: word_no_space)
  have "concat (map nonEmptyWords lines') @ nonEmptyWords cur' =
        filter (\<lambda>w. w \<noteq> []) (keptWords context maxWidth (splitSpaces par) [])"
    using wrapWords_kept_words [OF run nosp] by (simp add: nonEmptyWords_Nil)
  moreover have "concat (map nonEmptyWords (wrapParagraph context maxWidth par)) =
        concat (map nonEmptyWords lines') @ nonEmptyWords cur'"
    using nb run by (simp add: wrapParagraph_def nonEmptyWords_Nil)
  ultimately show kept: "nonEmptyWords (joinSpaces (wrapParagraph context maxWidth par)) =
        filter (\<lambda>w. w \<noteq> []) (keptWords context maxWidth (splitSpaces par) [])"
    by (simp only: nonEmptyWords_joinSpaces)
  assume am: "allMeasured context maxWidth (splitSpaces par) []"
  have "nonEmptyWords (sanitize par) = filter (\<lambda>w. w \<noteq> []) (map sanitize (splitSpaces par))"
    by (simp add: nonEmptyWords_def splitSpaces_sanitize)
  with kept allMeasured_keptWords [OF am]
  show "nonEmptyWords (joinSpaces (wrapParagraph context maxWidth par)) = nonEmptyWords (sanitize par)"
    by simp
next
  fix par
  assume nb: "\<not> trimIsEmpty par"
    and am: "allMeasured context maxWidth (splitSpaces par) []"
    and ne: "[] \<notin> set (splitSpaces (sanitize par))"
  let ?ls = "wrapParagraph context maxWidth par"
  obtain lines' cur' where run: "wrapWords context maxWidth (splitSpaces par) [] [] = (lines', cur')"
    by (cases "wrapWords context maxWidth (splitSpaces par) [] []") auto
  have words: "\<forall>w\<in>set (splitSpaces par). 32 \<notin> set w \<and> sanitize w \<noteq> []"
  proof
    fix w
    assume w: "w \<in> set (splitSpaces par)"
    then have "sanitize w \<in> set (splitSpaces (sanitize par))"
      by (simp add: splitSpaces_sanitize)
    with ne have "sanitize w \<noteq> []" by metis
    with w show "32 \<notin> set w \<and> sanitize w \<noteq> []" by (simp add: word_no_space)
  qed
  have all: "concat (map splitSpaces lines') @ (if cur' = [] then [] else splitSpaces cur') =
        map sanitize (splitSpaces par)"
    using wrapWords_all_words [OF am run words] by simp
  have ls: "concat (map splitSpaces ?ls) =
        concat (map splitSpaces lines') @ (if cur' = [] then [] else splitSpaces cur')"
    using nb run by (simp add: wrapParagraph_def)
  have "?ls \<noteq> []"
  proof
    assume "?ls = []"
    with ls all have "map sanitize (splitSpaces par) = []" by simp
    then show False by (simp add: splitSpaces_not_Nil)
  qed
  then have "splitSpaces (joinSpaces ?ls) = splitSpaces (sanitize par)"
    using ls all by (simp add: splitSpaces_joinSpaces splitSpaces_sanitize)
  then have "joinSpaces (splitSpaces (joinSpaces ?ls)) = joinSpaces (splitSpaces (sanitize par))"
    by simp
  then show "joinSpaces ?ls = sanitize par"
    by (simp only: joinSpaces_splitSpaces)
qed

subsection \<open>Inputs on which C1, C2 and C3 fail as they are worded\<close>

text \<open>
  Whatever the font: a text that is one word, without spaces or line breaks, comes back
  as one line, however wide the font measures it.
\<close>

lemma wrapText_single_word:
  assumes "10 \<notin> set w" and "32 \<notin> set w" and "\<not> trimIsEmpty w" and "sanitize w \<noteq> []"
    and "widthOfTextAtSize (fonts_regular context) (sanitize w) TEXT_SIZE = Some textWidth"
  shows "wrapText w context = [sanitize w]"
  using assms
  by (simp add: wrapText_def wrapParagraph_def splitNewlines_no_newline splitSpaces_no_space)

lemma sanitize_replicate_a: "sanitize (replicate n 97) = replicate n 97"
  by (simp add: sanitize_def stripped_def)

text \<open>
  C1 as worded fails for a word that is wider than the page: 83 letters \<open>a\<close> are
  498 points wide in the example font, more than the 495.28 points between the margins,
  and \<open>wrapText\<close> returns them as one line.
\<close>

theorem wrapText_long_word_too_wide:
  "wrapText (replicate 83 97) exContext = [replicate 83 97] \<and>
   \<not> fitsWidth exContext (pageWidth exContext - 2 * margin exContext) (replicate 83 97)"
proof -
  have "splitNewlines (replicate 83 97) = [replicate 83 97]"
    by (rule splitNewlines_no_newline) simp
  moreover have "splitSpaces (replicate 83 97) = [replicate 83 97]"
    by (rule splitSpaces_no_space) simp
  moreover have "\<not> trimIsEmpty (replicate 83 97)"
    by (simp add: trimIsEmpty_def isWhiteSpace_def list_all_iff)
  moreover have "widthOfTextAtSize exFont (replicate 83 97) TEXT_SIZE = Some 498"
    by (simp add: exFont_def TEXT_SIZE_def list_all_iff)
  ultimately show ?thesis
    by (simp add: wrapText_def wrapParagraph_def sanitize_replicate_a fitsWidth_def
        exContext_def PAGE_WIDTH_def MARGIN_def)
qed

text \<open>
  C2 as worded fails where a word is skipped: in \<open>a X c\<close>, with a middle word
  that the font cannot encode, the only line is \<open>a c\<close>, which is not a contiguous run
  of the words of the input.
\<close>

theorem wrapText_skips_word_between:
  "wrapText [97, 32, 20320, 32, 99] exContext = [[97, 32, 99]] \<and>
   \<not> (\<exists>ws. [97, 32, 99] = joinSpaces ws \<and> sublist ws (splitSpaces [97, 32, 20320, 32, 99]))"
proof -
  have "wrapText [97, 32, 20320, 32, 99] exContext = [[97, 32, 99]]"
    by (simp add: wrap_defs ex_defs)
  moreover have "\<not> (\<exists>ws. [97, 32, 99] = joinSpaces ws \<and> sublist ws (splitSpaces [97, 32, 20320, 32, 99]))"
  proof
    assume "\<exists>ws. [97, 32, 99] = joinSpaces ws \<and> sublist ws (splitSpaces [97, 32, 20320, 32, 99])"
    then obtain ws where j: "[97, 32, 99] = joinSpaces ws"
      and s: "sublist ws [[97], [20320], [99::nat]]" by auto
    from s have "ws \<in> {[], [[97]], [[20320]], [[99]], [[97], [20320]], [[20320], [99]], [[97], [20320], [99]]}"
      by (auto simp: sublist_Cons_right prefix_Cons)
    with j show False by auto
  qed
  ultimately show ?thesis by blast
qed

text \<open>
  C3 as worded fails for a text that starts with a space, for a text with a word that
  cannot be measured, and for a text that is a single tab.
\<close>

theorem wrapText_join_differs:
  "joinSpaces (wrapText (str '' a'') exContext) \<noteq> sanitize (str '' a'') \<and>
   joinSpaces (wrapText [97, 32, 20320, 32, 99] exContext) \<noteq> sanitize [97, 32, 20320, 32, 99] \<and>
   joinSpaces (wrapText [9] exContext) \<noteq> sanitize [9]"
  by (simp add: wrap_defs ex_defs)

subsection \<open>The properties at concrete inputs\<close>

text \<open>C1, C2 and C3 at the text \<open>ab cd\<close>.\<close>

theorem wrapText_lines_fit_or_single_word_witness:
  "str ''ab cd'' \<in> set (wrapText (str ''ab cd'') exContext) \<and>
   (str ''ab cd'' = [] \<or>
    fitsWidth exContext (pageWidth exContext - 2 * margin exContext) (str ''ab cd'') \<or>
    (\<exists>paragraph\<in>set (splitNewlines (str ''ab cd'')).
       \<exists>word\<in>set (splitSpaces paragraph). str ''ab cd'' = sanitize word))"
proof -
  have "str ''ab cd'' \<in> set (wrapText (str ''ab cd'') exContext)"
    by (simp add: wrap_defs ex_defs)
  with wrapText_lines_fit_or_single_word [of "str ''ab cd''" exContext] show ?thesis
    by blast
qed

theorem wrapText_lines_whole_words_witness:
  "str ''ab cd'' \<in> set (wrapText (str ''ab cd'') exContext) \<and>
   allMeasured exContext (pageWidth exContext - 2 * margin exContext) (splitSpaces (str ''ab cd'')) [] \<and>
   (\<exists>paragraph\<in>set (splitNewlines (str ''ab cd'')). \<exists>ws.
       str ''ab cd'' = joinSpaces ws \<and>
       sublist ws (keptWords exContext (pageWidth exContext - 2 * margin exContext)
                     (splitSpaces paragraph) []) \<and>
       subseq ws (map sanitize (splitSpaces paragraph)) \<and>
       sublist ws (map sanitize (splitSpaces paragraph)))"
proof -
  have a: "str ''ab cd'' \<in> set (wrapText (str ''ab cd'') exContext)"
    by (simp add: wrap_defs ex_defs)
  have b: "allMeasured exContext (pageWidth exContext - 2 * margin exContext)
      (splitSpaces (str ''ab cd'')) []"
    by (simp add: wrap_defs ex_defs)
  have c: "splitNewlines (str ''ab cd'') = [str ''ab cd'']"
    by (simp add: str_def)
  from wrapText_lines_whole_words [of "str ''ab cd''" exContext] a b c show ?thesis
    by auto
qed

theorem wrapParagraph_reproduces_words_witness:
  "str ''ab cd'' \<in> set (splitNewlines (str ''ab cd'')) \<and>
   \<not> trimIsEmpty (str ''ab cd'') \<and>
   allMeasured exContext 20 (splitSpaces (str ''ab cd'')) [] \<and>
   [] \<notin> set (splitSpaces (sanitize (str ''ab cd''))) \<and>
   wrapParagraph exContext 20 (str ''ab cd'') = [str ''ab'', str ''cd''] \<and>
   nonEmptyWords (joinSpaces (wrapParagraph exContext 20 (str ''ab cd''))) =
     nonEmptyWords (sanitize (str ''ab cd'')) \<and>
   joinSpaces (wrapParagraph exContext 20 (str ''ab cd'')) = sanitize (str ''ab cd'')"
proof -
  have b: "str ''ab cd'' \<in> set (splitNewlines (str ''ab cd''))"
    by (simp add: str_def)
  have c: "\<not> trimIsEmpty (str ''ab cd'')"
    by (simp add: str_def trimIsEmpty_def isWhiteSpace_def)
  have a: "allMeasured exContext 20 (splitSpaces (str ''ab cd'')) []"
    by (simp add: wrap_defs ex_defs)
  have d: "[] \<notin> set (splitSpaces (sanitize (str ''ab cd'')))"
    by (simp add: str_def sanitize_def stripped_def)
  have e: "wrapParagraph exContext 20 (str ''ab cd'') = [str ''ab'', str ''cd'']"
    by (simp add: wrap_defs ex_defs)
  from wrapParagraph_reproduces_words [of "str ''ab cd''" exContext 20] a b c d e show ?thesis
    by blast
qed

section \<open>Properties of addSection\<close>

lemma allCalls_update:
  assumes "i < length pages"
  shows "allCalls (pages[i := (pages ! i)\<lparr>drawn := drawn (pages ! i) @ [call]\<rparr>]) = allCalls pages + {#call#}"
proof -
  let ?pg = "(pages ! i)\<lparr>drawn := drawn (pages ! i) @ [call]\<rparr>"
  have "pages[i := ?pg] = take i pages @ ?pg # drop (Suc i) pages"
    using assms by (rule upd_conv_take_nth_drop)
  moreover have "pages = take i pages @ pages ! i # drop (Suc i) pages"
    using assms by (rule id_take_nth_drop)
  ultimately have "allCalls (pages[i := ?pg]) =
      mset (concat (map drawn (take i pages))) + mset (drawn ?pg) + mset (concat (map drawn (drop (Suc i) pages)))"
    and "allCalls pages =
      mset (concat (map drawn (take i pages))) + mset (drawn (pages ! i)) + mset (concat (map drawn (drop (Suc i) pages)))"
    unfolding allCalls_def by (metis concat.simps(2) concat_append list.simps(9) map_append mset_append add.assoc)+
  then show ?thesis by simp
qed

lemma drawText_calls:
  "page c < length (doc c) \<Longrightarrow> allCalls (doc (drawText c call)) = allCalls (doc c) + {#call#}"
  by (simp add: drawText_def allCalls_update)

lemma drawText_fields:
  "page (drawText c call) = page c" "length (doc (drawText c call)) = length (doc c)"
  "margin (drawText c call) = margin c" "pageHeight (drawText c call) = pageHeight c"
  "pageWidth (drawText c call) = pageWidth c" "currentY (drawText c call) = currentY c"
  "fonts_bold (drawText c call) = fonts_bold c" "fonts_regular (drawText c call) = fonts_regular c"
  by (simp_all add: drawText_def)

lemma newPage_calls: "allCalls (doc (newPage c)) = allCalls (doc c)"
  by (simp add: newPage_def allCalls_def)

lemma newPage_fields:
  "page (newPage c) = length (doc c)" "length (doc (newPage c)) = Suc (length (doc c))"
  "margin (newPage c) = margin c" "pageHeight (newPage c) = pageHeight c"
  "pageWidth (newPage c) = pageWidth c" "currentY (newPage c) = pageHeight c - margin c"
  "fonts_bold (newPage c) = fonts_bold c" "fonts_regular (newPage c) = fonts_regular c"
  by (simp_all add: newPage_def)

lemma addSection_line_fields:
  "margin (addSection_line c l) = margin c" "pageHeight (addSection_line c l) = pageHeight c"
  "pageWidth (addSection_line c l) = pageWidth c"
  "fonts_bold (addSection_line c l) = fonts_bold c" "fonts_regular (addSection_line c l) = fonts_regular c"
  by (simp_all add: addSection_line_def Let_def drawText_fields newPage_fields)

lemma addSection_line_page:
  "page c < length (doc c) \<Longrightarrow> page (addSection_line c l) < length (doc (addSection_line c l))"
  by (simp add: addSection_line_def Let_def drawText_fields newPage_fields)

lemma addSection_line_calls:
  assumes "page c < length (doc c)" and "margin c + 100 \<le> pageHeight c - margin c"
  shows "\<exists>new. allCalls (doc (addSection_line c l)) = allCalls (doc c) + new \<and>
           (\<forall>call\<in>#new. margin c + 20 \<le> call_y call \<and> call_size call = TEXT_SIZE)"
proof -
  let ?paged = "if currentY c < margin c + 20 then newPage c else c"
  have paged: "page ?paged < length (doc ?paged)" "allCalls (doc ?paged) = allCalls (doc c)"
    "margin ?paged = margin c" "margin c + 20 \<le> currentY ?paged"
    using assms by (auto simp: newPage_fields newPage_calls)
  show ?thesis
  proof (cases "\<not> trimIsEmpty l \<and> encodeText (fonts_regular ?paged) l = None")
    case True
    let ?call = "\<lparr>call_text = l, call_x = margin ?paged, call_y = currentY ?paged,
                  call_size = TEXT_SIZE, call_font = Regular\<rparr>"
    have "doc (addSection_line c l) = doc (drawText ?paged ?call)"
      using True by (simp add: addSection_line_def Let_def)
    then have "allCalls (doc (addSection_line c l)) = allCalls (doc c) + {#?call#}"
      using paged by (simp add: drawText_calls)
    moreover have "\<forall>call\<in>#{#?call#}. margin c + 20 \<le> call_y call \<and> call_size call = TEXT_SIZE"
      using paged by simp
    ultimately show ?thesis by blast
  next
    case False
    then have "doc (addSection_line c l) = doc ?paged"
      by (auto simp add: addSection_line_def Let_def)
    then have "allCalls (doc (addSection_line c l)) = allCalls (doc c) + {#}"
      using paged by simp
    then show ?thesis by (metis empty_iff set_mset_empty)
  qed
qed

lemma foldl_addSection_line:
  assumes "page c < length (doc c)" and "margin c + 100 \<le> pageHeight c - margin c"
  shows "page (foldl addSection_line c ls) < length (doc (foldl addSection_line c ls)) \<and>
         margin (foldl addSection_line c ls) = margin c \<and>
         pageHeight (foldl addSection_line c ls) = pageHeight c \<and>
         (\<exists>new. allCalls (doc (foldl addSection_line c ls)) = allCalls (doc c) + new \<and>
            (\<forall>call\<in>#new. margin c + 20 \<le> call_y call \<and> call_size call = TEXT_SIZE))"
  using assms
proof (induction ls arbitrary: c)
  case Nil
  have "allCalls (doc c) = allCalls (doc c) + {#}" by simp
  with Nil show ?case by (metis empty_iff set_mset_empty foldl_Nil)
next
  case (Cons l ls)
  let ?c = "addSection_line c l"
  have wf: "page ?c < length (doc ?c)" using Cons.prems(1) by (rule addSection_line_page)
  have geo: "margin ?c + 100 \<le> pageHeight ?c - margin ?c"
    using Cons.prems(2) by (simp add: addSection_line_fields)
  from addSection_line_calls [OF Cons.prems] obtain new1 where
    n1: "allCalls (doc ?c) = allCalls (doc c) + new1"
      "\<forall>call\<in>#new1. margin c + 20 \<le> call_y call \<and> call_size call = TEXT_SIZE" by blast
  from Cons.IH [OF wf geo] obtain new2 where
    n2: "page (foldl addSection_line ?c ls) < length (doc (foldl addSection_line ?c ls))"
      "margin (foldl addSection_line ?c ls) = margin ?c"
      "pageHeight (foldl addSection_line ?c ls) = pageHeight ?c"
      "allCalls (doc (foldl addSection_line ?c ls)) = allCalls (doc ?c) + new2"
      "\<forall>call\<in>#new2. margin ?c + 20 \<le> call_y call \<and> call_size call = TEXT_SIZE" by blast
  have "allCalls (doc (foldl addSection_line c (l # ls))) = allCalls (doc c) + (new1 + new2)"
    using n1(1) n2(4) by (simp add: add.assoc)
  moreover have "\<forall>call\<in>#new1 + new2. margin c + 20 \<le> call_y call \<and> call_size call = TEXT_SIZE"
    using n1(2) n2(5) by (auto simp: addSection_line_fields)
  ultimately show ?case
    using n2(1-3) by (auto simp: addSection_line_fields)
qed

lemma addSection_pageCheck_fields:
  "margin (addSection_pageCheck c) = margin c" "pageHeight (addSection_pageCheck c) = pageHeight c"
  "pageWidth (addSection_pageCheck c) = pageWidth c"
  "fonts_bold (addSection_pageCheck c) = fonts_bold c" "fonts_regular (addSection_pageCheck c) = fonts_regular c"
  "allCalls (doc (addSection_pageCheck c)) = allCalls (doc c)"
  by (simp_all add: addSection_pageCheck_def newPage_fields newPage_calls)

lemma addSection_pageCheck_page:
  "page c < length (doc c) \<Longrightarrow> page (addSection_pageCheck c) < length (doc (addSection_pageCheck c))"
  by (simp add: addSection_pageCheck_def newPage_fields)

lemma addSection_pageCheck_currentY:
  "margin c + 100 \<le> pageHeight c - margin c \<Longrightarrow> margin c + 100 \<le> currentY (addSection_pageCheck c)"
  by (simp add: addSection_pageCheck_def newPage_fields)


lemma addSection_Inl:
  "addSection c heading content = Inl (e, c') \<Longrightarrow> c' = addSection_pageCheck c"
  by (auto simp: addSection_def Let_def split: option.splits)

lemma addSection_calls:
  assumes "page c < length (doc c)" and "margin c + 100 \<le> pageHeight c - margin c"
    and "addSection c heading content = Inr c'"
  shows "page c' < length (doc c') \<and> margin c' = margin c \<and> pageHeight c' = pageHeight c \<and>
         (\<exists>new. allCalls (doc c') = allCalls (doc c) + new \<and>
            (\<forall>call\<in>#new. margin c + 20 \<le> call_y call \<and>
               (call_size call = HEADING_SIZE \<longrightarrow> margin c + 100 \<le> call_y call)))"
proof -
  let ?paged = "addSection_pageCheck c"
  let ?hcall = "\<lparr>call_text = sanitize heading, call_x = margin ?paged, call_y = currentY ?paged,
                  call_size = HEADING_SIZE, call_font = Bold\<rparr>"
  let ?headed = "drawText ?paged ?hcall"
  let ?below = "?headed\<lparr>currentY := currentY ?headed - (HEADING_SIZE + 10)\<rparr>"
  let ?written = "foldl addSection_line ?below (wrapText (sanitize content) ?below)"
  have enc: "encodeText (fonts_bold ?paged) (sanitize heading) = None"
    using assms(3) by (auto simp: addSection_def Let_def split: option.splits)
  have c': "c' = ?written\<lparr>currentY := currentY ?written - 20\<rparr>"
    using assms(3) enc by (simp add: addSection_def Let_def)
  have wfp: "page ?paged < length (doc ?paged)" using assms(1) by (rule addSection_pageCheck_page)
  have hy: "margin c + 100 \<le> call_y ?hcall"
    using addSection_pageCheck_currentY [OF assms(2)] by simp
  have below: "page ?below < length (doc ?below)" "margin ?below = margin c"
    "pageHeight ?below = pageHeight c" "allCalls (doc ?below) = allCalls (doc c) + {#?hcall#}"
    using wfp by (simp_all add: drawText_fields drawText_calls addSection_pageCheck_fields)
  have geo: "margin ?below + 100 \<le> pageHeight ?below - margin ?below"
    using assms(2) below by simp
  from foldl_addSection_line [OF below(1) geo, of "wrapText (sanitize content) ?below"]
  obtain new where w: "page ?written < length (doc ?written)" "margin ?written = margin ?below"
    "pageHeight ?written = pageHeight ?below"
    "allCalls (doc ?written) = allCalls (doc ?below) + new"
    "\<forall>call\<in>#new. margin ?below + 20 \<le> call_y call \<and> call_size call = TEXT_SIZE"
    by blast
  have "allCalls (doc c') = allCalls (doc c) + ({#?hcall#} + new)"
    using c' w(4) below(4) by (simp add: add.assoc)
  moreover have "\<forall>call\<in>#{#?hcall#} + new. margin c + 20 \<le> call_y call \<and>
               (call_size call = HEADING_SIZE \<longrightarrow> margin c + 100 \<le> call_y call)"
    using w(5) hy below(2) by (auto simp: TEXT_SIZE_def HEADING_SIZE_def)
  ultimately show ?thesis
    using c' w(1-3) below(2,3) by auto
qed

text \<open>
  C10.  In a context whose current page belongs to its document and whose page is high
  enough for a heading below the top margin (\<open>margin + 100 \<le> pageHeight - margin\<close>, as
  it is for the only context the generator builds), every \<open>drawText\<close> call that
  \<open>addSection\<close> issues has a y-coordinate of at least \<open>margin + 20\<close>, and a heading,
  the call at \<open>HEADING_SIZE\<close>, one of at least \<open>margin + 100\<close>.
\<close>

theorem addSection_draws_above_bottom_margin:
  assumes "page context < length (doc context)"
    and "margin context + 100 \<le> pageHeight context - margin context"
    and "addSection context heading content = Inr context'"
  shows "\<forall>call\<in>#issuedCalls context context'.
           margin context + 20 \<le> call_y call \<and>
           (call_size call = HEADING_SIZE \<longrightarrow> margin context + 100 \<le> call_y call)"
proof -
  from addSection_calls [OF assms] obtain new where
    "allCalls (doc context') = allCalls (doc context) + new"
    "\<forall>call\<in>#new. margin context + 20 \<le> call_y call \<and>
        (call_size call = HEADING_SIZE \<longrightarrow> margin context + 100 \<le> call_y call)"
    by blast
  then show ?thesis by (simp add: issuedCalls_def)
qed

text \<open>
  C4.  At the start of a section, a cursor below \<open>margin + 100\<close> starts a new page,
  which becomes the current page, with the cursor at \<open>pageHeight - margin\<close>; otherwise
  nothing changes.  Before each line, a cursor below \<open>margin + 20\<close> starts a new page in
  the same way: the line, if it is drawn, is drawn there at \<open>pageHeight - margin\<close>, and
  the cursor moves one line down from there; otherwise no page is added.  \<open>addSection\<close>
  is the first check, the heading, and the second check line by line.
\<close>

theorem addSection_page_breaks:
  "(currentY context < margin context + 100 \<longrightarrow>
      doc (addSection_pageCheck context) =
        doc context @ [\<lparr>pageSize = (pageWidth context, pageHeight context), drawn = []\<rparr>] \<and>
      page (addSection_pageCheck context) = length (doc context) \<and>
      currentY (addSection_pageCheck context) = pageHeight context - margin context) \<and>
   (\<not> currentY context < margin context + 100 \<longrightarrow> addSection_pageCheck context = context) \<and>
   (currentY context < margin context + 20 \<longrightarrow>
      length (doc (addSection_line context line)) = length (doc context) + 1 \<and>
      page (addSection_line context line) = length (doc context) \<and>
      drawn (doc (addSection_line context line) ! length (doc context)) =
        (if \<not> trimIsEmpty line \<and> encodeText (fonts_regular context) line = None
         then [\<lparr>call_text = line, call_x = margin context,
                 call_y = pageHeight context - margin context,
                 call_size = TEXT_SIZE, call_font = Regular\<rparr>]
         else []) \<and>
      currentY (addSection_line context line) = pageHeight context - margin context - LINE_HEIGHT) \<and>
   (\<not> currentY context < margin context + 20 \<longrightarrow>
      length (doc (addSection_line context line)) = length (doc context) \<and>
      page (addSection_line context line) = page context \<and>
      currentY (addSection_line context line) = currentY context - LINE_HEIGHT) \<and>
   (addSection context heading content = Inr context' \<longrightarrow>
      (let paged = addSection_pageCheck context;
           below = (drawText paged
                      \<lparr>call_text = sanitize heading, call_x = margin context,
                       call_y = currentY paged, call_size = HEADING_SIZE, call_font = Bold\<rparr>)
                   \<lparr>currentY := currentY paged - (HEADING_SIZE + 10)\<rparr>;
           written = foldl addSection_line below (wrapText (sanitize content) below)
       in context' = written\<lparr>currentY := currentY written - 20\<rparr>))"
proof (intro conjI impI)
  assume "currentY context < margin context + 100"
  then show "doc (addSection_pageCheck context) =
        doc context @ [\<lparr>pageSize = (pageWidth context, pageHeight context), drawn = []\<rparr>]"
    and "page (addSection_pageCheck context) = length (doc context)"
    and "currentY (addSection_pageCheck context) = pageHeight context - margin context"
    by (simp_all add: addSection_pageCheck_def newPage_def)
next
  assume "\<not> currentY context < margin context + 100"
  then show "addSection_pageCheck context = context"
    by (simp add: addSection_pageCheck_def)
next
  assume low: "currentY context < margin context + 20"
  then show "length (doc (addSection_line context line)) = length (doc context) + 1"
    and "page (addSection_line context line) = length (doc context)"
    and "currentY (addSection_line context line) = pageHeight context - margin context - LINE_HEIGHT"
    by (simp_all add: addSection_line_def Let_def drawText_fields newPage_fields)
  from low show "drawn (doc (addSection_line context line) ! length (doc context)) =
        (if \<not> trimIsEmpty line \<and> encodeText (fonts_regular context) line = None
         then [\<lparr>call_text = line, call_x = margin context,
                 call_y = pageHeight context - margin context,
                 call_size = TEXT_SIZE, call_font = Regular\<rparr>]
         else [])"
    by (simp add: addSection_line_def Let_def drawText_def newPage_def)
next
  assume "\<not> currentY context < margin context + 20"
  then show "length (doc (addSection_line context line)) = length (doc context)"
    and "page (addSection_line context line) = page context"
    and "currentY (addSection_line context line) = currentY context - LINE_HEIGHT"
    by (simp_all add: addSection_line_def Let_def drawText_fields)
next
  assume "addSection context heading content = Inr context'"
  then show "let paged = addSection_pageCheck context;
           below = (drawText paged
                      \<lparr>call_text = sanitize heading, call_x = margin context,
                       call_y = currentY paged, call_size = HEADING_SIZE, call_font = Bold\<rparr>)
                   \<lparr>currentY := currentY paged - (HEADING_SIZE + 10)\<rparr>;
           written = foldl addSection_line below (wrapText (sanitize content) below)
       in context' = written\<lparr>currentY := currentY written - 20\<rparr>"
    by (auto simp: addSection_def Let_def addSection_pageCheck_fields drawText_fields
        split: option.splits)
qed

lemmas draw_defs = addSection_def addSection_pageCheck_def addSection_line_def drawText_def
  newPage_def Let_def HEADING_SIZE_def LINE_HEIGHT_def

lemma addSection_example:
  "addSection exContext (str ''Note'') (str ''ab cd'') =
     Inr (exContext
       \<lparr>doc := [\<lparr>pageSize = (PAGE_WIDTH, PAGE_HEIGHT),
                 drawn = [\<lparr>call_text = str ''Note'', call_x = 50, call_y = 791.89,
                            call_size = 16, call_font = Bold\<rparr>,
                          \<lparr>call_text = str ''ab cd'', call_x = 50, call_y = 765.89,
                            call_size = 12, call_font = Regular\<rparr>]\<rparr>],
        currentY := 727.89\<rparr>)"
  by (simp add: draw_defs wrap_defs ex_defs)

text \<open>C10 and C4 at a section with a heading and one line, and at a cursor near the bottom.\<close>

theorem addSection_draws_above_bottom_margin_witness:
  "page exContext < length (doc exContext) \<and>
   margin exContext + 100 \<le> pageHeight exContext - margin exContext \<and>
   (\<exists>context'. addSection exContext (str ''Note'') (str ''ab cd'') = Inr context' \<and>
      \<lparr>call_text = str ''Note'', call_x = 50, call_y = 791.89,
        call_size = 16, call_font = Bold\<rparr> \<in># issuedCalls exContext context' \<and>
      \<lparr>call_text = str ''ab cd'', call_x = 50, call_y = 765.89,
        call_size = 12, call_font = Regular\<rparr> \<in># issuedCalls exContext context') \<and>
   margin exContext + 100 \<le> 791.89 \<and> margin exContext + 20 \<le> 765.89"
proof -
  let ?heading = "\<lparr>call_text = str ''Note'', call_x = 50, call_y = 791.89,
        call_size = 16, call_font = Bold\<rparr>"
  let ?line = "\<lparr>call_text = str ''ab cd'', call_x = 50, call_y = 765.89,
        call_size = 12, call_font = Regular\<rparr>"
  let ?after = "exContext
       \<lparr>doc := [\<lparr>pageSize = (PAGE_WIDTH, PAGE_HEIGHT), drawn = [?heading, ?line]\<rparr>],
        currentY := 727.89\<rparr>"
  have a: "page exContext < length (doc exContext)"
    and b: "margin exContext + 100 \<le> pageHeight exContext - margin exContext"
    by (simp_all add: ex_defs)
  have c: "addSection exContext (str ''Note'') (str ''ab cd'') = Inr ?after"
    by (rule addSection_example)
  have d: "?heading \<in># issuedCalls exContext ?after" "?line \<in># issuedCalls exContext ?after"
    by (simp_all add: issuedCalls_def allCalls_def exContext_def)
  have "margin exContext + 100 \<le> call_y ?heading" "margin exContext + 20 \<le> call_y ?line"
    using addSection_draws_above_bottom_margin [OF a b c] d
    by (auto simp: HEADING_SIZE_def)
  then have "margin exContext + 100 \<le> 791.89" "margin exContext + 20 \<le> 765.89"
    by simp_all
  with a b c d show ?thesis by blast
qed

theorem addSection_page_breaks_witness:
  "currentY lowContext < margin lowContext + 20 \<and>
   currentY lowContext < margin lowContext + 100 \<and>
   currentY (addSection_pageCheck lowContext) = pageHeight lowContext - margin lowContext \<and>
   page (addSection_pageCheck lowContext) = 1 \<and>
   length (doc (addSection_line lowContext (str ''ab''))) = 2 \<and>
   currentY (addSection_line lowContext (str ''ab'')) = 791.89 - 18 \<and>
   \<not> currentY exContext < margin exContext + 100 \<and>
   addSection_pageCheck exContext = exContext \<and>
   length (doc (addSection_line exContext (str ''ab''))) = 1 \<and>
   (\<exists>context'. addSection exContext (str ''Note'') (str ''ab cd'') = Inr context' \<and>
      currentY context' = 727.89)"
proof -
  have low: "currentY lowContext < margin lowContext + 20" "currentY lowContext < margin lowContext + 100"
    by (simp_all add: lowContext_def ex_defs)
  have high: "\<not> currentY exContext < margin exContext + 100" "\<not> currentY exContext < margin exContext + 20"
    by (simp_all add: ex_defs)
  have vals: "pageHeight lowContext - margin lowContext - LINE_HEIGHT = 791.89 - 18"
    "length (doc lowContext) = 1" "length (doc exContext) = 1"
    by (simp_all add: lowContext_def ex_defs LINE_HEIGHT_def)
  from addSection_page_breaks [of lowContext "str ''ab''" "str ''Note''" "str ''ab cd''" exContext] low vals
  have l: "currentY (addSection_pageCheck lowContext) = pageHeight lowContext - margin lowContext"
    "page (addSection_pageCheck lowContext) = 1"
    "length (doc (addSection_line lowContext (str ''ab''))) = 2"
    "currentY (addSection_line lowContext (str ''ab'')) = 791.89 - 18"
    by simp_all
  from addSection_page_breaks [of exContext "str ''ab''" "str ''Note''" "str ''ab cd''" exContext] high vals
  have h: "addSection_pageCheck exContext = exContext"
    "length (doc (addSection_line exContext (str ''ab''))) = 1"
    by simp_all
  have "\<exists>context'. addSection exContext (str ''Note'') (str ''ab cd'') = Inr context' \<and>
      currentY context' = 727.89"
    using addSection_example by simp
  with low high l h show ?thesis by blast
qed

section \<open>Properties of embedUploadedPDF\<close>

lemma andThen_Inl: "andThen r f = Inl e \<longleftrightarrow> r = Inl e \<or> (\<exists>v. r = Inr v \<and> f v = Inl e)"
  by (cases r) (auto simp: andThen_def)


lemma foreign_Inl: "foreign r = Inl e \<longleftrightarrow> (\<exists>fe. r = Inl fe \<and> e = Foreign fe)"
  by (cases r) (auto simp: foreign_def)

lemma escaped_Inl: "escaped r = Inl e \<longleftrightarrow> (\<exists>fe context. r = Inl (fe, context) \<and> e = Foreign fe)"
  by (cases r) (auto simp: escaped_def)




section \<open>Properties of generatePDF\<close>

lemma generatePDF_document_foreign:
  "generatePDF_document env submission = Inl e \<Longrightarrow> \<exists>fe. e = Foreign fe"
  unfolding generatePDF_document_def Let_def
  by (auto simp: andThen_Inl foreign_Inl escaped_Inl split: option.splits if_splits)

lemma generatePDF_store_500:
  "generatePDF_store env submission pdfDoc = Inl (ApplicationError message statusCode) \<Longrightarrow> statusCode = 500"
  unfolding generatePDF_store_def Let_def
  by (auto simp: andThen_Inl foreign_Inl split: option.splits if_splits sum.splits)

lemma drawOnPage_foreign: "drawOnPage f call pg = Inl e \<Longrightarrow> \<exists>fe. e = Foreign fe"
  by (auto simp: drawOnPage_def split: option.splits)

lemma drawInfo_foreign: "drawInfo f info y0 pg = Inl e \<Longrightarrow> \<exists>fe. e = Foreign fe"
  by (induction info arbitrary: y0 pg) (auto simp: andThen_Inl dest: drawOnPage_foreign)

lemma generateSimplePDF_document_foreign:
  "generateSimplePDF_document env submission = Inl e \<Longrightarrow> \<exists>fe. e = Foreign fe"
  unfolding generateSimplePDF_document_def Let_def
  by (auto simp: andThen_Inl foreign_Inl split: option.splits if_splits prod.splits
      dest: drawOnPage_foreign drawInfo_foreign)

lemma generateSimplePDF_store_500:
  "generateSimplePDF_store env submission pdfDoc = Inl (ApplicationError message statusCode) \<Longrightarrow> statusCode = 500"
  unfolding generateSimplePDF_store_def Let_def
  by (auto simp: andThen_Inl foreign_Inl split: option.splits if_splits sum.splits)

text \<open>
  C9.  Whatever \<open>generatePDF\<close> or \<open>generateSimplePDF\<close> throws is an
  \<open>ApplicationError\<close> with status code 500: the exceptions of the library and of the
  file system are caught and wrapped.
\<close>

theorem generatePDF_only_throws_ApplicationError_500:
  "(generatePDF env submission = Inl e \<longrightarrow> (\<exists>message. e = ApplicationError message 500)) \<and>
   (generateSimplePDF env submission = Inl e' \<longrightarrow> (\<exists>message. e' = ApplicationError message 500))"
proof (intro conjI impI)
  assume a: "generatePDF env submission = Inl e"
  show "\<exists>message. e = ApplicationError message 500"
  proof (cases "andThen (generatePDF_document env submission) (generatePDF_store env submission)")
    case (Inr p)
    with a show ?thesis by (simp add: generatePDF_def)
  next
    case (Inl t)
    show ?thesis
    proof (cases t)
      case (ApplicationError m c)
      with Inl have "generatePDF_document env submission = Inl (ApplicationError m c) \<or>
          (\<exists>d. generatePDF_store env submission d = Inl (ApplicationError m c))"
        by (auto simp: andThen_Inl)
      then have "c = 500"
        using generatePDF_document_foreign generatePDF_store_500 by blast
      with a Inl ApplicationError show ?thesis by (auto simp: generatePDF_def)
    next
      case (Foreign fe)
      with a Inl show ?thesis by (cases fe) (auto simp: generatePDF_def)
    qed
  qed
next
  assume a: "generateSimplePDF env submission = Inl e'"
  show "\<exists>message. e' = ApplicationError message 500"
  proof (cases "andThen (generateSimplePDF_document env submission) (generateSimplePDF_store env submission)")
    case (Inr p)
    with a show ?thesis by (simp add: generateSimplePDF_def)
  next
    case (Inl t)
    show ?thesis
    proof (cases t)
      case (ApplicationError m c)
      with Inl have "generateSimplePDF_document env submission = Inl (ApplicationError m c) \<or>
          (\<exists>d. generateSimplePDF_store env submission d = Inl (ApplicationError m c))"
        by (auto simp: andThen_Inl)
      then have "c = 500"
        using generateSimplePDF_document_foreign generateSimplePDF_store_500 by blast
      with a Inl ApplicationError show ?thesis by (auto simp: generateSimplePDF_def)
    next
      case (Foreign fe)
      with a Inl show ?thesis by (cases fe) (auto simp: generateSimplePDF_def)
    qed
  qed
qed

lemmas env_defs = exEnv_def exSubmission_def exUploadedPage_def

lemmas generate_defs = generatePDF_document_def andThen_def foreign_def unlessThrown_def escaped_def
  addTitle_def generateApplicantInfo_def generateDocumentInfo_def orElse_def
  embedUploadedPDF_def embedUploadedPDF_try_def embedUploadedPDF_copy_def TITLE_SIZE_def

lemma generatePDF_document_example:
  "\<exists>pdfDoc. generatePDF_document exEnv exSubmission = Inr pdfDoc \<and> length pdfDoc = 2"
  by (simp add: generate_defs draw_defs wrap_defs ex_defs env_defs showNat.simps)











lemma generatePDF_example:
  "generatePDF exEnv exSubmission = Inr (str ''/app/uploads/generated/application-cm5x0a1b2c3d4e5f.pdf'')"
proof -
  obtain pdfDoc where d: "generatePDF_document exEnv exSubmission = Inr pdfDoc"
    using generatePDF_document_example by blast
  have st: "generatePDF_store exEnv exSubmission pdfDoc =
      Inr (str ''/app/uploads/generated/application-cm5x0a1b2c3d4e5f.pdf'')"
    by (simp add: andThen_def generatePDF_store_def foreign_def unlessThrown_def env_defs str_def)
  show ?thesis
    by (simp add: generatePDF_def d st andThen_def)
qed








section \<open>Properties of the routes\<close>

lemma POST_persist_history:
  "map writtenStatus (snd (POST_persist env upload)) \<in>
     {[], [PROCESSING], [PROCESSING, COMPLETED], [PROCESSING, FAILED]}"
  by (auto simp: POST_persist_def Let_def split: prod.splits sum.splits option.splits)

lemma POST_writes:
  "snd (POST env request) =
     (case POST_upload env request of Inl e \<Rightarrow> [] | Inr upload \<Rightarrow> snd (POST_persist env upload))"
  by (auto simp: POST_def Let_def split: prod.splits sum.splits)

lemma POST_persist_completed:
  "COMPLETED \<in> writtenStatus ` set (snd (POST_persist env upload)) \<Longrightarrow>
     \<exists>submission pdfPath. generatePDF (generator env) submission = Inr pdfPath \<and>
       DbUpdate (id_submission submission)
         \<lparr>update_generatedPdfPath = Some pdfPath, update_status = COMPLETED\<rparr>
         \<in> set (snd (POST_persist env upload))"
  by (auto simp: POST_persist_def Let_def split: prod.splits sum.splits option.splits)

lemma POST_persist_failed:
  "FAILED \<in> writtenStatus ` set (snd (POST_persist env upload)) \<Longrightarrow>
     \<exists>submission e. generatePDF (generator env) submission = Inl e \<and>
       DbUpdate (id_submission submission)
         \<lparr>update_generatedPdfPath = None, update_status = FAILED\<rparr>
         \<in> set (snd (POST_persist env upload))"
  by (auto simp: POST_persist_def Let_def split: prod.splits sum.splits option.splits)

text \<open>
  C7.  The statuses that one request writes to its submission record are, in order,
  none, or \<open>processing\<close>, or \<open>processing\<close> then \<open>completed\<close>, or \<open>processing\<close> then
  \<open>failed\<close>: the record is created in a status that is not terminal and every step is
  a step of the status machine.  \<open>completed\<close> is written, together with the path of the
  PDF, only when \<open>generatePDF\<close> has returned that path, and \<open>failed\<close> only when it
  has thrown.
\<close>

theorem POST_status_machine:
  "(map writtenStatus (snd (POST env request)) = [] \<or>
    map writtenStatus (snd (POST env request)) = [PROCESSING] \<or>
    map writtenStatus (snd (POST env request)) = [PROCESSING, COMPLETED] \<or>
    map writtenStatus (snd (POST env request)) = [PROCESSING, FAILED]) \<and>
   successively transition (map writtenStatus (snd (POST env request))) \<and>
   (\<forall>s\<in>set (take 1 (map writtenStatus (snd (POST env request)))). \<not> terminal s) \<and>
   (COMPLETED \<in> writtenStatus ` set (snd (POST env request)) \<longrightarrow>
      (\<exists>submission pdfPath. generatePDF (generator env) submission = Inr pdfPath \<and>
         DbUpdate (id_submission submission)
           \<lparr>update_generatedPdfPath = Some pdfPath, update_status = COMPLETED\<rparr>
           \<in> set (snd (POST env request)))) \<and>
   (FAILED \<in> writtenStatus ` set (snd (POST env request)) \<longrightarrow>
      (\<exists>submission e. generatePDF (generator env) submission = Inl e \<and>
         DbUpdate (id_submission submission)
           \<lparr>update_generatedPdfPath = None, update_status = FAILED\<rparr>
           \<in> set (snd (POST env request))))"
proof (cases "POST_upload env request")
  case (Inl e)
  then have "snd (POST env request) = []" by (simp add: POST_writes)
  then show ?thesis by simp
next
  case (Inr upload)
  then have w: "snd (POST env request) = snd (POST_persist env upload)"
    by (simp add: POST_writes)
  let ?h = "map writtenStatus (snd (POST_persist env upload))"
  have h: "?h \<in> {[], [PROCESSING], [PROCESSING, COMPLETED], [PROCESSING, FAILED]}"
    by (rule POST_persist_history)
  then have "successively transition ?h" and "\<forall>s\<in>set (take 1 ?h). \<not> terminal s"
    by (auto simp: terminal_def)
  with h POST_persist_completed [of env upload] POST_persist_failed [of env upload]
  show ?thesis unfolding w by blast
qed

lemma statusValue_distinct:
  "statusValue PROCESSING \<noteq> statusValue FAILED"
  by (simp add: str_def)

lemma GET_try_downloadable:
  assumes "downloadable env idParam pdfBytes"
  shows "\<exists>response. GET_try env idParam = Inr response \<and> status_code response = 200 \<and>
           body response = Bytes pdfBytes \<and>
           (str ''Content-Type'', str ''application/pdf'') \<in> set (headers response)"
proof -
  from assms obtain submission pdfPath where
    a: "10 \<le> length idParam" "db_findUnique env idParam = Inr (Some submission)"
      "status submission \<noteq> statusValue PROCESSING" "status submission \<noteq> statusValue FAILED"
      "generatedPdfPath submission = Some pdfPath" "pdfPath \<noteq> []"
      "fs_access (generator env) pdfPath = None"
      "fs_readFile (generator env) pdfPath = Inr pdfBytes" "pdfBytes \<noteq> []"
    by (auto simp: downloadable_def)
  from a(1) have "idParam \<noteq> []" "\<not> length idParam < 10" by auto
  with a show ?thesis
    by (simp add: GET_try_def andThen_def foreign_def Let_def)
qed

lemma GET_try_Inr:
  assumes "GET_try env idParam = Inr response"
  shows "\<exists>pdfBytes. downloadable env idParam pdfBytes"
proof -
  note defs = GET_try_def andThen_def foreign_def Let_def
  have len: "\<not> (idParam = [] \<or> length idParam < 10)"
    using assms by (auto simp: defs)
  then obtain found where found: "db_findUnique env idParam = Inr found"
    using assms by (cases "db_findUnique env idParam") (auto simp: defs)
  then obtain submission where sub: "found = Some submission"
    using assms len by (cases found) (auto simp: defs)
  have st: "status submission \<noteq> statusValue PROCESSING" "status submission \<noteq> statusValue FAILED"
    using assms len found sub by (auto simp: defs split: if_splits)
  then obtain pdfPath where path: "generatedPdfPath submission = Some pdfPath"
    using assms len found sub by (cases "generatedPdfPath submission") (auto simp: defs)
  have ne: "pdfPath \<noteq> []"
    using assms len found sub st path by (auto simp: defs split: if_splits)
  have acc: "fs_access (generator env) pdfPath = None"
    using assms len found sub st path ne
    by (cases "fs_access (generator env) pdfPath") (auto simp: defs)
  obtain pdfBuffer where rd: "fs_readFile (generator env) pdfPath = Inr pdfBuffer"
    using assms len found sub st path ne acc
    by (cases "fs_readFile (generator env) pdfPath") (auto simp: defs)
  have "pdfBuffer \<noteq> []"
    using assms len found sub st path ne acc rd by (auto simp: defs split: if_splits)
  with len found sub st path ne acc rd have "downloadable env idParam pdfBuffer"
    by (auto simp: downloadable_def)
  then show ?thesis by blast
qed

lemma GET_try_Inl:
  assumes "GET_try env idParam = Inl thrown"
  shows "(\<exists>e. thrown = Foreign e) \<or>
         (\<exists>message statusCode. thrown = ApplicationError message statusCode \<and>
            statusCode \<in> {400, 404, 202, 500})"
proof -
  note defs = GET_try_def andThen_def foreign_def Let_def
  show ?thesis
  proof (cases "idParam = [] \<or> length idParam < 10")
    case True
    with assms show ?thesis by (auto simp: defs)
  next
    case len: False
    show ?thesis
    proof (cases "db_findUnique env idParam")
      case (Inl e)
      with assms len show ?thesis by (auto simp: defs)
    next
      case (Inr found)
      show ?thesis
      proof (cases found)
        case None
        with assms len Inr show ?thesis by (auto simp: defs)
      next
        case (Some submission)
        show ?thesis
        proof (cases "status submission = statusValue PROCESSING \<or>
            status submission = statusValue FAILED")
          case True
          with assms len Inr Some show ?thesis by (auto simp: defs split: if_splits)
        next
          case st: False
          show ?thesis
          proof (cases "generatedPdfPath submission")
            case None
            with assms len Inr Some st show ?thesis by (auto simp: defs)
          next
            case path: (Some pdfPath)
            show ?thesis
            proof (cases "pdfPath = [] \<or> fs_access (generator env) pdfPath \<noteq> None")
              case True
              with assms len Inr Some st path show ?thesis
                by (auto simp: defs split: if_splits option.splits)
            next
              case ok: False
              show ?thesis
              proof (cases "fs_readFile (generator env) pdfPath")
                case (Inl e)
                with assms len Inr Some st path ok show ?thesis by (auto simp: defs)
              next
                case rd: (Inr pdfBuffer)
                with assms len Inr Some st path ok show ?thesis
                  by (cases "pdfBuffer = []") (auto simp: defs split: if_splits option.splits)
              qed
            qed
          qed
        qed
      qed
    qed
  qed
qed

text \<open>
  C8, as the code has it.  Provided \<open>handleApiError\<close> hands on the status code of an
  \<open>ApplicationError\<close> and gives a code outside 200..299 for any other exception: the
  download handler answers 200 with the bytes of the generated PDF and the content
  type \<open>application/pdf\<close> exactly when the id has at least 10 characters, the
  submission exists, its status is neither \<open>processing\<close> nor \<open>failed\<close>, a path of the
  generated PDF is recorded, and the file there can be read and is not empty; in
  every other case it answers with an error message as JSON and a status code that is
  202 or outside 200..299.
\<close>

theorem GET_serves_pdf_or_error:
  assumes "\<forall>message statusCode. snd (handleApiError env (ApplicationError message statusCode)) = statusCode"
    and "\<forall>e. \<not> (200 \<le> snd (handleApiError env (Foreign e)) \<and> snd (handleApiError env (Foreign e)) < 300)"
  shows "(\<forall>pdfBytes. downloadable env idParam pdfBytes \<longrightarrow>
            status_code (GET env idParam) = 200 \<and>
            body (GET env idParam) = Bytes pdfBytes \<and>
            (str ''Content-Type'', str ''application/pdf'') \<in> set (headers (GET env idParam))) \<and>
         ((\<forall>pdfBytes. \<not> downloadable env idParam pdfBytes) \<longrightarrow>
            (\<exists>message. body (GET env idParam) = ErrorJson message) \<and>
            (status_code (GET env idParam) = 202 \<or>
             \<not> (200 \<le> status_code (GET env idParam) \<and> status_code (GET env idParam) < 300)))"
proof (intro conjI allI impI)
  fix pdfBytes
  assume "downloadable env idParam pdfBytes"
  from GET_try_downloadable [OF this] obtain response where
    "GET_try env idParam = Inr response" "status_code response = 200"
    "body response = Bytes pdfBytes"
    "(str ''Content-Type'', str ''application/pdf'') \<in> set (headers response)" by blast
  then show "status_code (GET env idParam) = 200" "body (GET env idParam) = Bytes pdfBytes"
    "(str ''Content-Type'', str ''application/pdf'') \<in> set (headers (GET env idParam))"
    by (simp_all add: GET_def)
next
  assume no: "\<forall>pdfBytes. \<not> downloadable env idParam pdfBytes"
  then obtain thrown where t: "GET_try env idParam = Inl thrown"
    using GET_try_Inr by (cases "GET_try env idParam") blast+
  obtain message statusCode where h: "handleApiError env thrown = (message, statusCode)"
    by (cases "handleApiError env thrown") auto
  from t h have g: "GET env idParam = json (ErrorJson message) statusCode"
    by (simp add: GET_def)
  then show "\<exists>message. body (GET env idParam) = ErrorJson message"
    by (simp add: json_def)
  from GET_try_Inl [OF t] have "statusCode = 202 \<or> \<not> (200 \<le> statusCode \<and> statusCode < 300)"
  proof
    assume "\<exists>e. thrown = Foreign e"
    then show ?thesis using assms(2) h by (metis snd_conv)
  next
    assume "\<exists>message statusCode. thrown = ApplicationError message statusCode \<and>
            statusCode \<in> {400, 404, 202, 500}"
    then obtain m c where "thrown = ApplicationError m c" "c \<in> {400, 404, 202, 500}" by blast
    moreover from this assms(1) h have "statusCode = c" by (metis snd_conv)
    ultimately show ?thesis by auto
  qed
  with g show "status_code (GET env idParam) = 202 \<or>
      \<not> (200 \<le> status_code (GET env idParam) \<and> status_code (GET env idParam) < 300)"
    by (simp add: json_def)
qed

lemmas route_defs = exRouteEnv_def GET_def GET_try_def andThen_def foreign_def unlessThrown_def
  json_def Let_def

text \<open>
  C8 as worded fails for an id of fewer than 10 characters: the submission exists,
  is completed and its file is there, and the handler answers 400.
\<close>

theorem GET_short_id_rejected:
  "db_findUnique exRouteEnv (str ''ab12'') =
     Inr (Some (exSubmission\<lparr>id_submission := str ''ab12'', status := str ''completed'',
        generatedPdfPath := Some (str ''/app/uploads/generated/application.pdf'')\<rparr>)) \<and>
   str ''completed'' \<noteq> statusValue PROCESSING \<and> str ''completed'' \<noteq> statusValue FAILED \<and>
   fs_access (generator exRouteEnv) (str ''/app/uploads/generated/application.pdf'') = None \<and>
   fs_readFile (generator exRouteEnv) (str ''/app/uploads/generated/application.pdf'') =
     Inr [37, 80, 68, 70] \<and>
   GET exRouteEnv (str ''ab12'') = json (ErrorJson (str ''Invalid submission ID'')) 400"
  by (simp add: route_defs exEnv_def str_def)

text \<open>C8 at an id whose PDF is served and at an id that is too short.\<close>

theorem GET_serves_pdf_or_error_witness:
  "downloadable exRouteEnv (str ''cm5x0a1b2c3d4e5f'') [37, 80, 68, 70] \<and>
   status_code (GET exRouteEnv (str ''cm5x0a1b2c3d4e5f'')) = 200 \<and>
   body (GET exRouteEnv (str ''cm5x0a1b2c3d4e5f'')) = Bytes [37, 80, 68, 70] \<and>
   (str ''Content-Type'', str ''application/pdf'')
     \<in> set (headers (GET exRouteEnv (str ''cm5x0a1b2c3d4e5f''))) \<and>
   (\<exists>message. body (GET exRouteEnv (str ''ab12'')) = ErrorJson message) \<and>
   status_code (GET exRouteEnv (str ''ab12'')) = 400"
proof -
  have a: "\<forall>message statusCode.
      snd (handleApiError exRouteEnv (ApplicationError message statusCode)) = statusCode"
    and b: "\<forall>e. \<not> (200 \<le> snd (handleApiError exRouteEnv (Foreign e)) \<and>
           snd (handleApiError exRouteEnv (Foreign e)) < 300)"
    by (simp_all add: exRouteEnv_def)
  have c: "downloadable exRouteEnv (str ''cm5x0a1b2c3d4e5f'') [37, 80, 68, 70]"
    by (simp add: downloadable_def exRouteEnv_def exEnv_def str_def)
  have d: "\<forall>pdfBytes. \<not> downloadable exRouteEnv (str ''ab12'') pdfBytes"
    by (simp add: downloadable_def str_def)
  have e: "status_code (GET exRouteEnv (str ''ab12'')) = 400"
    by (simp add: route_defs str_def)
  from GET_serves_pdf_or_error [OF a b, of "str ''cm5x0a1b2c3d4e5f''"] c
    GET_serves_pdf_or_error [OF a b, of "str ''ab12''"] d e
  show ?thesis by auto
qed

section \<open>The properties of the generator and the routes at concrete inputs\<close>


text \<open>C9 where the library cannot create the document.\<close>

theorem generatePDF_only_throws_ApplicationError_500_witness:
  "generatePDF failingEnv exSubmission =
     Inl (ApplicationError (str ''PDF generation failed: '' @ str ''out of memory'') 500) \<and>
   generateSimplePDF failingEnv exSubmission =
     Inl (ApplicationError (str ''Simple PDF generation failed: '' @ str ''out of memory'') 500) \<and>
   (\<exists>message. ApplicationError (str ''PDF generation failed: '' @ str ''out of memory'') 500 =
      ApplicationError message 500) \<and>
   (\<exists>message. ApplicationError (str ''Simple PDF generation failed: '' @ str ''out of memory'') 500 =
      ApplicationError message 500)"
proof -
  have a: "generatePDF failingEnv exSubmission =
     Inl (ApplicationError (str ''PDF generation failed: '' @ str ''out of memory'') 500)"
    by (simp add: generatePDF_def generatePDF_document_def andThen_def foreign_def unlessThrown_def
        failingEnv_def)
  have b: "generateSimplePDF failingEnv exSubmission =
     Inl (ApplicationError (str ''Simple PDF generation failed: '' @ str ''out of memory'') 500)"
    by (simp add: generateSimplePDF_def generateSimplePDF_document_def andThen_def foreign_def
        unlessThrown_def failingEnv_def)
  from generatePDF_only_throws_ApplicationError_500 [of failingEnv exSubmission
      "ApplicationError (str ''PDF generation failed: '' @ str ''out of memory'') 500"
      "ApplicationError (str ''Simple PDF generation failed: '' @ str ''out of memory'') 500"] a b
  show ?thesis by blast
qed

lemma POST_upload_example:
  "POST_upload exRouteEnv exRequest =
     Inr (\<lparr>valid_firstName = str ''Ada'', valid_lastName = str ''Byron'',
           valid_email = str ''ada@example.org'', valid_phone = None,
           valid_jobDescription = str ''Writes programs for engines.''\<rparr>,
          str ''/app/uploads/cv.pdf'', str ''cv.pdf'')"
  by (simp add: POST_upload_def exRouteEnv_def exRequest_def exEnv_def andThen_def foreign_def
      unlessThrown_def str_def)

lemma POST_upload_failing_example:
  "POST_upload failingRouteEnv exRequest =
     Inr (\<lparr>valid_firstName = str ''Ada'', valid_lastName = str ''Byron'',
           valid_email = str ''ada@example.org'', valid_phone = None,
           valid_jobDescription = str ''Writes programs for engines.''\<rparr>,
          str ''/app/uploads/cv.pdf'', str ''cv.pdf'')"
  by (simp add: POST_upload_def failingRouteEnv_def failingEnv_def exRouteEnv_def exRequest_def
      exEnv_def andThen_def foreign_def unlessThrown_def str_def)

lemma generatePDF_failing_example:
  "generatePDF failingEnv exSubmission =
     Inl (ApplicationError (str ''PDF generation failed: '' @ str ''out of memory'') 500)"
  by (simp add: generatePDF_def generatePDF_document_def andThen_def foreign_def unlessThrown_def
      failingEnv_def)

text \<open>C7 at a request whose PDF is generated and at one whose generation fails.\<close>

theorem POST_status_machine_witness:
  "map writtenStatus (snd (POST exRouteEnv exRequest)) = [PROCESSING, COMPLETED] \<and>
   COMPLETED \<in> writtenStatus ` set (snd (POST exRouteEnv exRequest)) \<and>
   (\<exists>submission pdfPath. generatePDF (generator exRouteEnv) submission = Inr pdfPath \<and>
      DbUpdate (id_submission submission)
        \<lparr>update_generatedPdfPath = Some pdfPath, update_status = COMPLETED\<rparr>
        \<in> set (snd (POST exRouteEnv exRequest))) \<and>
   map writtenStatus (snd (POST failingRouteEnv exRequest)) = [PROCESSING, FAILED] \<and>
   FAILED \<in> writtenStatus ` set (snd (POST failingRouteEnv exRequest)) \<and>
   (\<exists>submission e. generatePDF (generator failingRouteEnv) submission = Inl e \<and>
      DbUpdate (id_submission submission)
        \<lparr>update_generatedPdfPath = None, update_status = FAILED\<rparr>
        \<in> set (snd (POST failingRouteEnv exRequest))) \<and>
   successively transition (map writtenStatus (snd (POST exRouteEnv exRequest))) \<and>
   \<not> terminal PROCESSING"
proof -
  have g: "generator exRouteEnv = exEnv" "db_create exRouteEnv = (\<lambda>d. Inr exSubmission)"
    "db_update exRouteEnv = (\<lambda>i d. None)"
    by (simp_all add: exRouteEnv_def)
  have g': "generator failingRouteEnv = failingEnv" "db_create failingRouteEnv = (\<lambda>d. Inr exSubmission)"
    "db_update failingRouteEnv = (\<lambda>i d. None)"
    by (simp_all add: failingRouteEnv_def exRouteEnv_def)
  have a: "map writtenStatus (snd (POST exRouteEnv exRequest)) = [PROCESSING, COMPLETED]"
    by (simp add: POST_writes POST_upload_example POST_persist_def g generatePDF_example)
  have b: "map writtenStatus (snd (POST failingRouteEnv exRequest)) = [PROCESSING, FAILED]"
    by (simp add: POST_writes POST_upload_failing_example POST_persist_def g'
        generatePDF_failing_example)
  have a': "COMPLETED \<in> writtenStatus ` set (snd (POST exRouteEnv exRequest))"
    using a by (metis image_set list.set_intros(1,2))
  have b': "FAILED \<in> writtenStatus ` set (snd (POST failingRouteEnv exRequest))"
    using b by (metis image_set list.set_intros(1,2))
  have c: "\<not> terminal PROCESSING" by (simp add: terminal_def)
  from POST_status_machine [of exRouteEnv exRequest] POST_status_machine [of failingRouteEnv exRequest]
    a b a' b' c
  show ?thesis by blast
qed

end
